theory Spec2Isabelle
  imports Complex_Main
begin

section \<open>JSON values and the JavaScript operations applied to them\<close>

text \<open>
  The message handler of \<^verbatim>\<open>live-poll/server/index.js\<close> works on whatever
  \<^verbatim>\<open>JSON.parse\<close> returns. A JSON number is a double: a finite double is a rational
  number, and a literal beyond the range parses to an infinity. The sign of zero is not
  observed by any operation of the handler, so \<open>-0\<close> is \<open>Num 0\<close>. A string is a
  list of characters: the handler compares strings, tests them for emptiness and hands
  them to built-ins, so any encoding of JavaScript's strings that keeps them apart will
  do; the literals of the source are ASCII. An object is the list of its members as
  written; a later member of the same name overrides an earlier one.
\<close>

datatype jsnum = Num rat | PosInfinity | NegInfinity

datatype json =
    JNull
  | JBool bool
  | JNum jsnum
  | JStr string
  | JArr "json list"
  | JObj "(string \<times> json) list"

text \<open>
  A variable of the handler holds a JSON value or \<^verbatim>\<open>undefined\<close>: \<open>None\<close> is
  \<^verbatim>\<open>undefined\<close>.
\<close>

fun truthy :: "json option \<Rightarrow> bool" where
  "truthy None = False"
| "truthy (Some JNull) = False"
| "truthy (Some (JBool b)) = b"
| "truthy (Some (JNum n)) = (n \<noteq> Num 0)"
| "truthy (Some (JStr s)) = (s \<noteq> [])"
| "truthy (Some (JArr xs)) = True"
| "truthy (Some (JObj kvs)) = True"

text \<open>
  Reading a property, for the names the handler reads (\<^verbatim>\<open>type\<close>, \<^verbatim>\<open>payload\<close>,
  \<^verbatim>\<open>roomId\<close>, \<^verbatim>\<open>name\<close>, \<^verbatim>\<open>role\<close>, \<^verbatim>\<open>question\<close>, \<^verbatim>\<open>id\<close>,
  \<^verbatim>\<open>text\<close>, \<^verbatim>\<open>options\<close>, \<^verbatim>\<open>questionId\<close>, \<^verbatim>\<open>optionIndex\<close>): no
  prototype defines any of them, so only an object that has the member yields a value.
\<close>

fun getProp :: "json \<Rightarrow> string \<Rightarrow> json option" where
  "getProp (JObj kvs) k = map_of (rev kvs) k"
| "getProp v k = None"

fun isObject :: "json \<Rightarrow> bool" where
  "isObject (JArr xs) = True"
| "isObject (JObj kvs) = True"
| "isObject v = False"

text \<open>
  \<^verbatim>\<open>a === b\<close> where \<open>a\<close> comes from the message being handled and \<open>b\<close> was stored
  from an earlier message: two primitives are compared by type and value, and an object
  or array is never identical to one of another \<^verbatim>\<open>JSON.parse\<close>.
\<close>

fun strictEq :: "json option \<Rightarrow> json \<Rightarrow> bool" where
  "strictEq None b = False"
| "strictEq (Some a) b = (\<not> isObject a \<and> a = b)"

fun numLess0 :: "jsnum \<Rightarrow> bool" where
  "numLess0 (Num r) = (r < 0)"
| "numLess0 PosInfinity = False"
| "numLess0 NegInfinity = True"

fun numGeLength :: "jsnum \<Rightarrow> nat \<Rightarrow> bool" where
  "numGeLength (Num r) n = (of_nat n \<le> r)"
| "numGeLength PosInfinity n = True"
| "numGeLength NegInfinity n = False"

text \<open>
  The built-in functions of the runtime that the handler calls on strings and numbers.
  They are parameters of the model: \<^verbatim>\<open>String.prototype.trim\<close>,
  \<^verbatim>\<open>String.prototype.toLowerCase\<close> and the conversion of a number to a string.
\<close>

record builtins =
  trim :: "string \<Rightarrow> string"
  toLowerCase :: "string \<Rightarrow> string"
  numberToString :: "jsnum \<Rightarrow> string"

datatype exn = TypeError

text \<open>
  \<^verbatim>\<open>`${v}`\<close>: the conversion of a value to a string. An array joins the strings of
  its elements with commas, a \<^verbatim>\<open>null\<close> element giving the empty string. A plain
  object gives \<^verbatim>\<open>[object Object]\<close> through \<^verbatim>\<open>Object.prototype.toString\<close>; an
  object with a member named \<^verbatim>\<open>toString\<close> hides that method by a value that cannot be
  called, \<^verbatim>\<open>valueOf\<close> returns no primitive either, and the conversion throws.
\<close>

fun toString :: "builtins \<Rightarrow> json \<Rightarrow> exn + string"
  and joinElems :: "builtins \<Rightarrow> json list \<Rightarrow> exn + string" where
  "toString js JNull = Inr ''null''"
| "toString js (JBool b) = Inr (if b then ''true'' else ''false'')"
| "toString js (JNum n) = Inr (numberToString js n)"
| "toString js (JStr s) = Inr s"
| "toString js (JArr xs) = joinElems js xs"
| "toString js (JObj kvs) =
     (if ''toString'' \<in> fst ` set kvs then Inl TypeError else Inr ''[object Object]'')"
| "joinElems js [] = Inr []"
| "joinElems js (x # xs) =
     (case (if x = JNull then Inr [] else toString js x) of
        Inl e \<Rightarrow> Inl e
      | Inr s \<Rightarrow>
          (if xs = [] then Inr s
           else case joinElems js xs of Inl e \<Rightarrow> Inl e | Inr t \<Rightarrow> Inr (s @ '','' @ t)))"

section \<open>Rooms, connections and the server state\<close>

type_synonym conn = nat

datatype ready_state = CONNECTING | OPEN | CLOSING | CLOSED

text \<open>
  A key of the \<^verbatim>\<open>rooms\<close> map is the \<^verbatim>\<open>roomId\<close> of a JOIN. The map compares a
  primitive by value and an object or array by identity, so such a key carries the
  number of the allocation next to its content.
\<close>

datatype room_key = Prim json | Ref nat json

fun keyValue :: "room_key \<Rightarrow> json" where
  "keyValue (Prim v) = v"
| "keyValue (Ref n v) = v"

record question_rec =
  q_id :: json
  q_text :: json
  q_options :: "json list"

text \<open>
  \<open>counts\<close> holds the elements of the array \<^verbatim>\<open>room.counts\<close>, and \<open>counts_props\<close>
  the properties of that array that are not elements: \<^verbatim>\<open>counts[i] += 1\<close> with a
  number \<open>i\<close> that is not an integer creates the property named by \<open>i\<close>, of value
  \<^verbatim>\<open>NaN\<close>, and leaves the elements and the length alone; no code reads such a
  property, and \<^verbatim>\<open>JSON.stringify\<close> leaves it out. \<open>clients\<close> is the set
  \<^verbatim>\<open>room.clients\<close> in its order of insertion, the order in which \<^verbatim>\<open>broadcast\<close>
  visits it. \<open>total_votes\<close> is \<^verbatim>\<open>room.total\<close>.
\<close>

record room =
  question :: "question_rec option"
  counts :: "int list"
  counts_props :: "jsnum set"
  total_votes :: int
  votedBy :: "string set"
  clients :: "conn list"

record meta_rec =
  m_roomId :: "room_key option"
  m_name :: json
  m_role :: json

record server =
  rooms :: "room_key \<rightharpoonup> room"
  meta :: "conn \<Rightarrow> meta_rec"
  readyState :: "conn \<Rightarrow> ready_state"
  allocated :: nat

text \<open>
  The texts of \<^verbatim>\<open>errorMsg\<close>, in the order of the source:
  \<^verbatim>\<open>Mensaje no es JSON valido.\<close>, \<^verbatim>\<open>Formato invalido.\<close>, \<^verbatim>\<open>JOIN incompleto.\<close>,
  \<^verbatim>\<open>Rol invalido.\<close>, \<^verbatim>\<open>Debes hacer JOIN primero.\<close>,
  \<^verbatim>\<open>Solo host puede crear preguntas.\<close>, \<^verbatim>\<open>Pregunta invalida.\<close>,
  \<^verbatim>\<open>Opciones deben ser 2 a 4.\<close>, \<^verbatim>\<open>No hay pregunta activa.\<close>,
  \<^verbatim>\<open>QuestionId no coincide.\<close>, \<^verbatim>\<open>optionIndex invalido.\<close>,
  \<^verbatim>\<open>Opcion fuera de rango.\<close>, \<^verbatim>\<open>Nombre requerido para votar.\<close>,
  \<^verbatim>\<open>Ya votaste en esta pregunta.\<close>, \<^verbatim>\<open>Tipo de mensaje no soportado.\<close>
  (the accents of the source are left out here).
\<close>

datatype error_text =
    NotValidJson
  | InvalidFormat
  | JoinIncomplete
  | InvalidRole
  | MustJoinFirst
  | OnlyHost
  | InvalidQuestion
  | OptionsTwoToFour
  | NoActiveQuestion
  | QuestionIdMismatch
  | OptionIndexInvalid
  | OptionOutOfRange
  | NameRequired
  | AlreadyVoted
  | UnsupportedType

datatype out_msg =
    STATE json "question_rec option" "int list" int
  | ERROR error_text

type_synonym sent = "(conn \<times> out_msg) list"

definition emptyRoom :: room where
  "emptyRoom = \<lparr>question = None, counts = [], counts_props = {}, total_votes = 0,
     votedBy = {}, clients = []\<rparr>"

definition getRoom :: "room_key \<Rightarrow> server \<Rightarrow> room \<times> server" where
  "getRoom k st =
     (case rooms st k of
        None \<Rightarrow> (emptyRoom, st\<lparr>rooms := (rooms st)(k \<mapsto> emptyRoom)\<rparr>)
      | Some r \<Rightarrow> (r, st))"

definition safeSend :: "server \<Rightarrow> conn \<Rightarrow> out_msg \<Rightarrow> sent" where
  "safeSend st ws m = (if readyState st ws = OPEN then [(ws, m)] else [])"

definition broadcast :: "room_key \<Rightarrow> out_msg \<Rightarrow> server \<Rightarrow> sent \<times> server" where
  "broadcast k m st =
     (let (r, st1) = getRoom k st
      in (concat (map (\<lambda>c. safeSend st1 c m) (clients r)), st1))"

definition roomState :: "room_key \<Rightarrow> server \<Rightarrow> out_msg \<times> server" where
  "roomState k st =
     (let (r, st1) = getRoom k st
      in (STATE (keyValue k) (question r) (counts r) (total_votes r), st1))"

definition sendError :: "server \<Rightarrow> conn \<Rightarrow> error_text \<Rightarrow> exn + server \<times> sent" where
  "sendError st ws e = Inr (st, safeSend st ws (ERROR e))"

section \<open>The message handler\<close>

text \<open>The key under which a JOIN with this \<^verbatim>\<open>roomId\<close> finds its room.\<close>

definition joinKey :: "server \<Rightarrow> json \<Rightarrow> room_key" where
  "joinKey st v = (if isObject v then Ref (allocated st) v else Prim v)"

definition addClient :: "conn \<Rightarrow> conn list \<Rightarrow> conn list" where
  "addClient ws cs = (if ws \<in> set cs then cs else cs @ [ws])"

definition handleJoin :: "server \<Rightarrow> conn \<Rightarrow> json \<Rightarrow> exn + server \<times> sent" where
  "handleJoin st ws payload =
     (let roomId = getProp payload ''roomId'';
          name = getProp payload ''name'';
          role = getProp payload ''role''
      in if \<not> truthy roomId \<or> \<not> truthy name \<or> \<not> truthy role then sendError st ws JoinIncomplete
         else if role \<notin> {Some (JStr ''player''), Some (JStr ''host'')}
           then sendError st ws InvalidRole
         else
           let k = joinKey st (the roomId);
               st1 = st\<lparr>meta := (meta st)(ws :=
                        \<lparr>m_roomId = Some k, m_name = the name, m_role = the role\<rparr>),
                      allocated := (if isObject (the roomId) then Suc (allocated st)
                                    else allocated st)\<rparr>;
               (r, st2) = getRoom k st1;
               st3 = st2\<lparr>rooms := (rooms st2)(k \<mapsto> r\<lparr>clients := addClient ws (clients r)\<rparr>)\<rparr>;
               (m, st4) = roomState k st3
           in Inr (st4, safeSend st4 ws m))"

definition handleSetQuestion ::
  "server \<Rightarrow> conn \<Rightarrow> room_key \<Rightarrow> room \<Rightarrow> json \<Rightarrow> exn + server \<times> sent" where
  "handleSetQuestion st ws k r payload =
     (if m_role (meta st ws) \<noteq> JStr ''host'' then sendError st ws OnlyHost
      else
        let q = getProp payload ''question''
        in if \<not> truthy q then sendError st ws InvalidQuestion
           else
             let qid = getProp (the q) ''id'';
                 qtext = getProp (the q) ''text'';
                 qoptions = getProp (the q) ''options''
             in if \<not> truthy qid \<or> \<not> truthy qtext then sendError st ws InvalidQuestion
                else (case qoptions of
                  Some (JArr opts) \<Rightarrow>
                    if length opts < 2 \<or> length opts > 4 then sendError st ws OptionsTwoToFour
                    else
                      let r1 = r\<lparr>question := Some \<lparr>q_id = the qid, q_text = the qtext,
                                                   q_options = opts\<rparr>,
                                 counts := replicate (length opts) 0,
                                 counts_props := {},
                                 total_votes := 0,
                                 votedBy := {}\<rparr>;
                          st1 = st\<lparr>rooms := (rooms st)(k \<mapsto> r1)\<rparr>;
                          (m, st2) = roomState k st1;
                          (out, st3) = broadcast k m st2
                      in Inr (st3, out)
                | _ \<Rightarrow> sendError st ws InvalidQuestion))"

text \<open>
  The ballot key of line 115. The three substitutions of the template are evaluated
  from left to right; \<^verbatim>\<open>name.trim()\<close> throws for a name that is not a string, since
  no other JSON value has a method \<^verbatim>\<open>trim\<close>.
\<close>

definition ballotKey :: "builtins \<Rightarrow> room_key \<Rightarrow> question_rec \<Rightarrow> json \<Rightarrow> exn + string" where
  "ballotKey js k q name =
     (case toString js (keyValue k) of
        Inl e \<Rightarrow> Inl e
      | Inr rs \<Rightarrow>
          (case toString js (q_id q) of
             Inl e \<Rightarrow> Inl e
           | Inr qs \<Rightarrow>
               (case name of
                  JStr s \<Rightarrow> Inr (rs @ '':'' @ qs @ '':'' @ toLowerCase js (trim js s))
                | _ \<Rightarrow> Inl TypeError)))"

text \<open>
  \<^verbatim>\<open>room.counts[optionIndex] += 1\<close>, which line 112 lets run only for a number from 0
  up to, and without, the length of the counts. A number that is a nonnegative integer
  names an element; any other number names a property that is not an element, which
  gets the value \<^verbatim>\<open>undefined + 1\<close>.
\<close>

definition isInteger :: "rat \<Rightarrow> bool" where
  "isInteger x = (x = of_int \<lfloor>x\<rfloor>)"

fun incrementCount :: "jsnum \<Rightarrow> room \<Rightarrow> room" where
  "incrementCount (Num x) r =
     (if isInteger x \<and> 0 \<le> x
      then r\<lparr>counts := (counts r)[nat \<lfloor>x\<rfloor> := counts r ! nat \<lfloor>x\<rfloor> + 1]\<rparr>
      else r\<lparr>counts_props := insert (Num x) (counts_props r)\<rparr>)"
| "incrementCount n r = r\<lparr>counts_props := insert n (counts_props r)\<rparr>"

definition handleVote ::
  "builtins \<Rightarrow> server \<Rightarrow> conn \<Rightarrow> room_key \<Rightarrow> room \<Rightarrow> json \<Rightarrow> exn + server \<times> sent" where
  "handleVote js st ws k r payload =
     (let questionId = getProp payload ''questionId'';
          optionIndex = getProp payload ''optionIndex'';
          name = getProp payload ''name''
      in case question r of
           None \<Rightarrow> sendError st ws NoActiveQuestion
         | Some q \<Rightarrow>
             if \<not> strictEq questionId (q_id q) then sendError st ws QuestionIdMismatch
             else (case optionIndex of
               Some (JNum n) \<Rightarrow>
                 if numLess0 n \<or> numGeLength n (length (counts r))
                   then sendError st ws OptionOutOfRange
                 else if \<not> truthy name then sendError st ws NameRequired
                 else (case ballotKey js k q (the name) of
                     Inl e \<Rightarrow> Inl e
                   | Inr key \<Rightarrow>
                       if key \<in> votedBy r then sendError st ws AlreadyVoted
                       else
                         let r1 = incrementCount n (r\<lparr>votedBy := insert key (votedBy r)\<rparr>);
                             r2 = r1\<lparr>total_votes := total_votes r1 + 1\<rparr>;
                             st1 = st\<lparr>rooms := (rooms st)(k \<mapsto> r2)\<rparr>;
                             (m, st2) = roomState k st1;
                             (out, st3) = broadcast k m st2
                         in Inr (st3, out))
             | _ \<Rightarrow> sendError st ws OptionIndexInvalid))"

text \<open>
  The listener of \<^verbatim>\<open>message\<close>. Its argument is the result of
  \<^verbatim>\<open>JSON.parse(raw.toString())\<close>: \<open>None\<close> when the parser throws. \<open>Inl\<close> is an
  exception that leaves the listener.
\<close>

definition on_message :: "builtins \<Rightarrow> server \<Rightarrow> conn \<Rightarrow> json option \<Rightarrow> exn + server \<times> sent" where
  "on_message js st ws parsed =
     (case parsed of
        None \<Rightarrow> sendError st ws NotValidJson
      | Some msg \<Rightarrow>
          let msg1 = (if truthy (Some msg) then msg else JObj []);
              type = getProp msg1 ''type'';
              payload = getProp msg1 ''payload''
          in if \<not> truthy type \<or> \<not> truthy payload then sendError st ws InvalidFormat
             else if type = Some (JStr ''JOIN'') then handleJoin st ws (the payload)
             else (case m_roomId (meta st ws) of
                 None \<Rightarrow> sendError st ws MustJoinFirst
               | Some k \<Rightarrow>
                   let (r, st1) = getRoom k st
                   in if type = Some (JStr ''HOST_SET_QUESTION'')
                        then handleSetQuestion st1 ws k r (the payload)
                      else if type = Some (JStr ''VOTE'')
                        then handleVote js st1 ws k r (the payload)
                      else sendError st1 ws UnsupportedType))"

section \<open>Connections and runs of the server\<close>

definition on_connection :: "server \<Rightarrow> conn \<Rightarrow> server" where
  "on_connection st ws =
     st\<lparr>meta := (meta st)(ws := \<lparr>m_roomId = None, m_name = JNull, m_role = JNull\<rparr>)\<rparr>"

definition on_close :: "server \<Rightarrow> conn \<Rightarrow> server" where
  "on_close st ws =
     (case m_roomId (meta st ws) of
        None \<Rightarrow> st
      | Some k \<Rightarrow>
          let (r, st1) = getRoom k st
          in st1\<lparr>rooms := (rooms st1)(k \<mapsto> r\<lparr>clients := removeAll ws (clients r)\<rparr>)\<rparr>)"

text \<open>
  The events the transport raises. It opens a connection before the listener of
  \<^verbatim>\<open>connection\<close> runs and marks it closed before the listener of \<^verbatim>\<open>close\<close> runs.
\<close>

datatype event = Connection conn | Message conn "json option" | Close conn

fun connOf :: "event \<Rightarrow> conn" where
  "connOf (Connection ws) = ws"
| "connOf (Message ws parsed) = ws"
| "connOf (Close ws) = ws"

fun step :: "builtins \<Rightarrow> server \<Rightarrow> event \<Rightarrow> exn + server \<times> sent" where
  "step js st (Connection ws) =
     Inr (on_connection (st\<lparr>readyState := (readyState st)(ws := OPEN)\<rparr>) ws, [])"
| "step js st (Message ws parsed) = on_message js st ws parsed"
| "step js st (Close ws) =
     Inr (on_close (st\<lparr>readyState := (readyState st)(ws := CLOSED)\<rparr>) ws, [])"

fun run :: "builtins \<Rightarrow> server \<Rightarrow> event list \<Rightarrow> exn + server \<times> sent" where
  "run js st [] = Inr (st, [])"
| "run js st (e # es) =
     (case step js st e of
        Inl x \<Rightarrow> Inl x
      | Inr (st1, out1) \<Rightarrow>
          (case run js st1 es of
             Inl x \<Rightarrow> Inl x
           | Inr (st2, out2) \<Rightarrow> Inr (st2, out1 @ out2)))"

definition initial :: server where
  "initial = \<lparr>rooms = Map.empty,
     meta = (\<lambda>ws. \<lparr>m_roomId = None, m_name = JNull, m_role = JNull\<rparr>),
     readyState = (\<lambda>ws. CONNECTING), allocated = 0\<rparr>"

section \<open>Notions used to state the properties\<close>

text \<open>The room a JOIN finds under a key: the room of the map, or the one it creates.\<close>

definition roomOrEmpty :: "server \<Rightarrow> room_key \<Rightarrow> room" where
  "roomOrEmpty st k = (case rooms st k of None \<Rightarrow> emptyRoom | Some r \<Rightarrow> r)"

text \<open>The two checks of lines 76 and 77 on the payload of a JOIN.\<close>

definition joinAccepted :: "json \<Rightarrow> bool" where
  "joinAccepted payload =
     (truthy (getProp payload ''roomId'') \<and> truthy (getProp payload ''name'') \<and>
      truthy (getProp payload ''role'') \<and>
      getProp payload ''role'' \<in> {Some (JStr ''player''), Some (JStr ''host'')})"

text \<open>The \<^verbatim>\<open>roomId\<close> of a message that is a JOIN passing both checks.\<close>

definition acceptedJoin :: "json \<Rightarrow> json option" where
  "acceptedJoin msg =
     (if getProp msg ''type'' = Some (JStr ''JOIN'')
      then (case getProp msg ''payload'' of
              None \<Rightarrow> None
            | Some payload \<Rightarrow> if joinAccepted payload then getProp payload ''roomId'' else None)
      else None)"

text \<open>The state after a JOIN that passes both checks.\<close>

definition joinedState :: "server \<Rightarrow> conn \<Rightarrow> json \<Rightarrow> json \<Rightarrow> json \<Rightarrow> server" where
  "joinedState st ws roomId name role =
     st\<lparr>rooms := (rooms st)(joinKey st roomId \<mapsto>
          (roomOrEmpty st (joinKey st roomId))
            \<lparr>clients := addClient ws (clients (roomOrEmpty st (joinKey st roomId)))\<rparr>),
        meta := (meta st)(ws := \<lparr>m_roomId = Some (joinKey st roomId), m_name = name,
          m_role = role\<rparr>),
        allocated := (if isObject roomId then Suc (allocated st) else allocated st)\<rparr>"

text \<open>The checks of lines 96 and 97 on the payload of a HOST_SET_QUESTION.\<close>

definition questionAccepted :: "json \<Rightarrow> bool" where
  "questionAccepted payload =
     (case getProp payload ''question'' of
        None \<Rightarrow> False
      | Some q \<Rightarrow>
          truthy (Some q) \<and> truthy (getProp q ''id'') \<and> truthy (getProp q ''text'') \<and>
          (case getProp q ''options'' of
             Some (JArr opts) \<Rightarrow> 2 \<le> length opts \<and> length opts \<le> 4
           | _ \<Rightarrow> False))"

text \<open>
  The two updates of a room: lines 99 to 102 for a new question, lines 118 to 120 for a
  vote that is counted.
\<close>

definition newQuestion :: "question_rec \<Rightarrow> room \<Rightarrow> room" where
  "newQuestion q r =
     r\<lparr>question := Some q, counts := replicate (length (q_options q)) 0, counts_props := {},
       total_votes := 0, votedBy := {}\<rparr>"

definition countedVote :: "jsnum \<Rightarrow> string \<Rightarrow> room \<Rightarrow> room" where
  "countedVote n key r =
     (incrementCount n (r\<lparr>votedBy := insert key (votedBy r)\<rparr>))
       \<lparr>total_votes := total_votes r + 1\<rparr>"

text \<open>A name that is a string has the method \<^verbatim>\<open>trim\<close>; no other JSON value has.\<close>

fun isString :: "json \<Rightarrow> bool" where
  "isString (JStr s) = True"
| "isString v = False"

text \<open>The \<^verbatim>\<open>optionIndex\<close> a message carries, and the events whose index is an integer.\<close>

definition optionIndexOf :: "json option \<Rightarrow> json option" where
  "optionIndexOf parsed =
     (case parsed of
        None \<Rightarrow> None
      | Some msg \<Rightarrow>
          (case getProp msg ''payload'' of
             None \<Rightarrow> None
           | Some payload \<Rightarrow> getProp payload ''optionIndex''))"

fun integerIndex :: "event \<Rightarrow> bool" where
  "integerIndex (Message ws parsed) =
     (case optionIndexOf parsed of Some (JNum (Num x)) \<Rightarrow> isInteger x | _ \<Rightarrow> True)"
| "integerIndex e = True"

text \<open>
  The input the specification calls malformed or unsupported: text that does not parse,
  a message without a type or a payload, a type that is none of the three commands, a
  JOIN or a HOST_SET_QUESTION whose payload fails the checks on its fields, a VOTE without
  \<^verbatim>\<open>questionId\<close>, \<^verbatim>\<open>optionIndex\<close> or \<^verbatim>\<open>name\<close>.
\<close>

definition malformed :: "json option \<Rightarrow> bool" where
  "malformed parsed =
     (case parsed of
        None \<Rightarrow> True
      | Some msg \<Rightarrow>
          (case getProp msg ''payload'' of
             None \<Rightarrow> True
           | Some payload \<Rightarrow>
               \<not> truthy (getProp msg ''type'') \<or> \<not> truthy (Some payload) \<or>
               getProp msg ''type'' \<notin> {Some (JStr ''JOIN''), Some (JStr ''HOST_SET_QUESTION''),
                  Some (JStr ''VOTE'')} \<or>
               getProp msg ''type'' = Some (JStr ''JOIN'') \<and> \<not> joinAccepted payload \<or>
               getProp msg ''type'' = Some (JStr ''HOST_SET_QUESTION'') \<and>
                 \<not> questionAccepted payload \<or>
               getProp msg ''type'' = Some (JStr ''VOTE'') \<and>
                 (getProp payload ''questionId'' = None \<or>
                  getProp payload ''optionIndex'' = None \<or>
                  \<not> truthy (getProp payload ''name''))))"

text \<open>
  The room of a joined session is in the map: the JOIN put it there and no code removes a
  room. Every state the server reaches has this property (lemma \<open>run_sessions_have_rooms\<close>).
\<close>

definition sessionHasRoom :: "server \<Rightarrow> conn \<Rightarrow> bool" where
  "sessionHasRoom st ws =
     (case m_roomId (meta st ws) of None \<Rightarrow> True | Some k \<Rightarrow> rooms st k \<noteq> None)"

text \<open>The connection is in the set \<^verbatim>\<open>clients\<close> of the room under the key.\<close>

definition isMember :: "server \<Rightarrow> room_key \<Rightarrow> conn \<Rightarrow> bool" where
  "isMember st k ws = (case rooms st k of None \<Rightarrow> False | Some r \<Rightarrow> ws \<in> set (clients r))"

text \<open>
  The events of a connection that replace or end the binding of its session to a room: its
  \<^verbatim>\<open>connection\<close> event, a JOIN of its own that passes both checks, and its close. Every
  other message it sends, and every event of another connection, leaves the binding alone.
\<close>

fun changesBinding :: "conn \<Rightarrow> event \<Rightarrow> bool" where
  "changesBinding ws (Connection c) = (c = ws)"
| "changesBinding ws (Message c parsed) =
     (c = ws \<and> (case parsed of None \<Rightarrow> False | Some msg \<Rightarrow> acceptedJoin msg \<noteq> None))"
| "changesBinding ws (Close c) = (c = ws)"

section \<open>Built-ins for ASCII names and integer identifiers\<close>

text \<open>
  The concrete runs below need concrete built-ins. On strings of ASCII characters
  \<open>asciiTrim\<close> and \<open>asciiLower\<close> are \<^verbatim>\<open>trim\<close> and \<^verbatim>\<open>toLowerCase\<close>; on an
  integer below \<open>10\<^sup>2\<^sup>1\<close> in absolute value and on the infinities \<open>decimal\<close> is the
  conversion of a number to a string. The runs below use them on no other argument.
\<close>

definition asciiSpace :: "char \<Rightarrow> bool" where
  "asciiSpace c = (c \<in> set [CHR 0x09, CHR 0x0A, CHR 0x0B, CHR 0x0C, CHR 0x0D, CHR 0x20])"

definition asciiTrim :: "string \<Rightarrow> string" where
  "asciiTrim s = rev (dropWhile asciiSpace (rev (dropWhile asciiSpace s)))"

definition asciiLower :: "string \<Rightarrow> string" where
  "asciiLower s =
     map (\<lambda>c. case map_of (zip ''ABCDEFGHIJKLMNOPQRSTUVWXYZ'' ''abcdefghijklmnopqrstuvwxyz'') c of
                None \<Rightarrow> c
              | Some d \<Rightarrow> d) s"

fun digits :: "nat \<Rightarrow> string" where
  "digits n =
     (if n < 10 then [''0123456789'' ! n] else digits (n div 10) @ [''0123456789'' ! (n mod 10)])"

fun decimal :: "jsnum \<Rightarrow> string" where
  "decimal (Num x) = (if x < 0 then ''-'' else []) @ digits (nat \<bar>\<lfloor>x\<rfloor>\<bar>)"
| "decimal PosInfinity = ''Infinity''"
| "decimal NegInfinity = ''-Infinity''"

definition ascii :: builtins where
  "ascii = \<lparr>trim = asciiTrim, toLowerCase = asciiLower, numberToString = decimal\<rparr>"

section \<open>A concrete run\<close>

text \<open>The messages of the scenarios.\<close>

definition joinMsg :: "json \<Rightarrow> json \<Rightarrow> json \<Rightarrow> json" where
  "joinMsg roomId name role =
     JObj [(''type'', JStr ''JOIN''),
           (''payload'', JObj [(''roomId'', roomId), (''name'', name), (''role'', role)])]"

definition setQuestionMsg :: "json \<Rightarrow> json \<Rightarrow> json list \<Rightarrow> json" where
  "setQuestionMsg qid qtext opts =
     JObj [(''type'', JStr ''HOST_SET_QUESTION''),
           (''payload'', JObj [(''question'',
              JObj [(''id'', qid), (''text'', qtext), (''options'', JArr opts)])])]"

definition voteMsg :: "json \<Rightarrow> json \<Rightarrow> json \<Rightarrow> json" where
  "voteMsg questionId optionIndex name =
     JObj [(''type'', JStr ''VOTE''),
           (''payload'', JObj [(''questionId'', questionId), (''optionIndex'', optionIndex),
              (''name'', name)])]"

text \<open>
  A run of three connections: the first joins room \<^verbatim>\<open>R1\<close> as host, the second as
  player Ana, the third does not join; the host sets question \<^verbatim>\<open>q1\<close> with the options
  Red and Blue, and Ana votes for Blue. \<open>pollState\<close> is the state the run ends in.
\<close>

definition pollEvents :: "event list" where
  "pollEvents =
     [Connection 1,
      Message 1 (Some (joinMsg (JStr ''R1'') (JStr ''Host'') (JStr ''host''))),
      Connection 2,
      Message 2 (Some (joinMsg (JStr ''R1'') (JStr ''Ana'') (JStr ''player''))),
      Connection 3,
      Message 1 (Some (setQuestionMsg (JStr ''q1'') (JStr ''Color?'')
         [JStr ''Red'', JStr ''Blue''])),
      Message 2 (Some (voteMsg (JStr ''q1'') (JNum (Num 1)) (JStr ''Ana'')))]"

definition pollQuestion :: question_rec where
  "pollQuestion = \<lparr>q_id = JStr ''q1'', q_text = JStr ''Color?'',
     q_options = [JStr ''Red'', JStr ''Blue'']\<rparr>"

definition pollRoom :: room where
  "pollRoom = \<lparr>question = Some pollQuestion, counts = [0, 1], counts_props = {},
     total_votes = 1, votedBy = {''R1:q1:ana''}, clients = [1, 2]\<rparr>"

definition pollState :: server where
  "pollState =
     \<lparr>rooms = [Prim (JStr ''R1'') \<mapsto> pollRoom],
      meta = (\<lambda>ws. \<lparr>m_roomId = None, m_name = JNull, m_role = JNull\<rparr>)
        (1 := \<lparr>m_roomId = Some (Prim (JStr ''R1'')), m_name = JStr ''Host'',
                m_role = JStr ''host''\<rparr>,
         2 := \<lparr>m_roomId = Some (Prim (JStr ''R1'')), m_name = JStr ''Ana'',
                m_role = JStr ''player''\<rparr>),
      readyState = (\<lambda>ws. CONNECTING)(1 := OPEN, 2 := OPEN, 3 := OPEN),
      allocated = 0\<rparr>"

text \<open>
  The third connection of \<open>pollState\<close> joins room \<^verbatim>\<open>R1\<close> and then room \<^verbatim>\<open>R2\<close>
  (\<open>inBothRooms\<close>), and closes (\<open>afterClose\<close>). \<open>repeatedVote\<close> is a vote of Ana, who has
  voted, and \<open>earlyVote\<close> a vote in a room that has no question yet: both are answered by
  an error and change no state.
\<close>

definition inBothRooms :: server where
  "inBothRooms =
     joinedState (joinedState pollState 3 (JStr ''R1'') (JStr ''Bea'') (JStr ''player'')) 3
       (JStr ''R2'') (JStr ''Bea'') (JStr ''player'')"

definition afterClose :: server where
  "afterClose = on_close (inBothRooms\<lparr>readyState := (readyState inBothRooms)(3 := CLOSED)\<rparr>) 3"

definition repeatedVote :: json where
  "repeatedVote = voteMsg (JStr ''q1'') (JNum (Num 0)) (JStr ''Ana'')"

definition earlyVote :: json where
  "earlyVote = voteMsg (JStr ''q1'') (JNum (Num 0)) (JStr ''Bea'')"

section \<open>The handlers on a room that exists\<close>

lemma getRoom_existing: "rooms st k = Some r \<Longrightarrow> getRoom k st = (r, st)"
  by (simp add: getRoom_def)

lemma roomState_existing:
  "rooms st k = Some r \<Longrightarrow>
   roomState k st = (STATE (keyValue k) (question r) (counts r) (total_votes r), st)"
  by (simp add: roomState_def getRoom_existing)

lemma broadcast_existing:
  "rooms st k = Some r \<Longrightarrow>
   broadcast k m st = (concat (map (\<lambda>c. safeSend st c m) (clients r)), st)"
  by (simp add: broadcast_def getRoom_existing)

lemma safeSend_rooms_update [simp]: "safeSend (st\<lparr>rooms := f\<rparr>) = safeSend st"
  by (simp add: safeSend_def fun_eq_iff)

lemma getProp_truthy: "getProp v k = Some x \<Longrightarrow> truthy (Some v)"
  by (cases v) simp_all

lemma getProp_or_empty: "getProp (if truthy (Some msg) then msg else JObj []) k = getProp msg k"
  by (cases msg) simp_all

lemma on_message_joined:
  assumes "truthy (getProp msg ''type'')" and "truthy (getProp msg ''payload'')"
    and "getProp msg ''type'' \<noteq> Some (JStr ''JOIN'')"
    and "m_roomId (meta st ws) = Some k" and "rooms st k = Some r"
  shows "on_message js st ws (Some msg) =
     (if getProp msg ''type'' = Some (JStr ''HOST_SET_QUESTION'')
        then handleSetQuestion st ws k r (the (getProp msg ''payload''))
      else if getProp msg ''type'' = Some (JStr ''VOTE'')
        then handleVote js st ws k r (the (getProp msg ''payload''))
      else sendError st ws UnsupportedType)"
  using assms by (simp add: on_message_def getProp_or_empty getRoom_existing Let_def)

lemma handleSetQuestion_ok:
  assumes "m_role (meta st ws) = JStr ''host''" and "rooms st k = Some r"
    and "getProp payload ''question'' = Some q"
    and "getProp q ''id'' = Some qid" and "truthy (Some qid)"
    and "getProp q ''text'' = Some qtext" and "truthy (Some qtext)"
    and "getProp q ''options'' = Some (JArr opts)"
    and "2 \<le> length opts" and "length opts \<le> 4"
  shows "handleSetQuestion st ws k r payload =
     Inr (st\<lparr>rooms := (rooms st)(k \<mapsto>
            r\<lparr>question := Some \<lparr>q_id = qid, q_text = qtext, q_options = opts\<rparr>,
              counts := replicate (length opts) 0, counts_props := {}, total_votes := 0,
              votedBy := {}\<rparr>)\<rparr>,
          concat (map (\<lambda>c. safeSend st c
             (STATE (keyValue k) (Some \<lparr>q_id = qid, q_text = qtext, q_options = opts\<rparr>)
                (replicate (length opts) 0) 0)) (clients r)))"
proof -
  have tq: "truthy (Some q)"
    using assms(4) by (rule getProp_truthy)
  show ?thesis
    using assms tq
    by (simp add: handleSetQuestion_def roomState_existing broadcast_existing Let_def)
qed

lemma handleVote_ok:
  assumes "question r = Some q" and "rooms st k = Some r"
    and "strictEq (getProp payload ''questionId'') (q_id q)"
    and "getProp payload ''optionIndex'' = Some (JNum n)"
    and "\<not> numLess0 n" and "\<not> numGeLength n (length (counts r))"
    and "getProp payload ''name'' = Some name" and "truthy (Some name)"
    and "ballotKey js k q name = Inr key" and "key \<notin> votedBy r"
  shows "handleVote js st ws k r payload =
     Inr (st\<lparr>rooms := (rooms st)(k \<mapsto>
            (incrementCount n (r\<lparr>votedBy := insert key (votedBy r)\<rparr>))
              \<lparr>total_votes := total_votes r + 1\<rparr>)\<rparr>,
          concat (map (\<lambda>c. safeSend st c
             (STATE (keyValue k) (Some q)
                (counts (incrementCount n r)) (total_votes r + 1))) (clients r)))"
proof -
  have inc: "total_votes (incrementCount n x) = total_votes x"
    "clients (incrementCount n x) = clients x"
    "question (incrementCount n x) = question x"
    "counts (incrementCount n (x\<lparr>votedBy := v\<rparr>)) = counts (incrementCount n x)" for x v
    by (cases n; simp)+
  show ?thesis
    using assms
    by (simp add: handleVote_def roomState_existing broadcast_existing inc Let_def)
qed

lemma keyValue_joinKey: "keyValue (joinKey st v) = v"
  by (simp add: joinKey_def)

lemma on_message_join:
  assumes "getProp msg ''type'' = Some (JStr ''JOIN'')"
    and "getProp msg ''payload'' = Some payload" and "truthy (Some payload)"
  shows "on_message js st ws (Some msg) = handleJoin st ws payload"
  using assms by (simp add: on_message_def getProp_or_empty)

lemma handleJoin_ok:
  assumes "getProp payload ''roomId'' = Some roomId"
    and "getProp payload ''name'' = Some name"
    and "getProp payload ''role'' = Some role"
    and "truthy (Some roomId)" and "truthy (Some name)"
    and "role = JStr ''host'' \<or> role = JStr ''player''"
  shows "handleJoin st ws payload =
     Inr (st\<lparr>rooms := (rooms st)(joinKey st roomId \<mapsto>
                 (roomOrEmpty st (joinKey st roomId))
                   \<lparr>clients := addClient ws (clients (roomOrEmpty st (joinKey st roomId)))\<rparr>),
              meta := (meta st)(ws := \<lparr>m_roomId = Some (joinKey st roomId), m_name = name,
                 m_role = role\<rparr>),
              allocated := (if isObject roomId then Suc (allocated st) else allocated st)\<rparr>,
          safeSend st ws (STATE roomId (question (roomOrEmpty st (joinKey st roomId)))
             (counts (roomOrEmpty st (joinKey st roomId)))
             (total_votes (roomOrEmpty st (joinKey st roomId)))))"
proof -
  have tr: "truthy (Some role)"
    using assms(6) by auto
  show ?thesis
  proof (cases "rooms st (joinKey st roomId)")
    case None
    then show ?thesis
      using assms(1-5) tr assms(6)
      by (elim disjE; simp add: handleJoin_def getRoom_def roomState_def roomOrEmpty_def
          safeSend_def keyValue_joinKey sendError_def Let_def)
  next
    case (Some r)
    then show ?thesis
      using assms(1-5) tr assms(6)
      by (elim disjE; simp add: handleJoin_def getRoom_def roomState_def roomOrEmpty_def
          safeSend_def keyValue_joinKey sendError_def Let_def)
  qed
qed

lemma handleJoin_rejected:
  "\<not> joinAccepted payload \<Longrightarrow>
   handleJoin st ws payload =
     sendError st ws
       (if \<not> truthy (getProp payload ''roomId'') \<or> \<not> truthy (getProp payload ''name'') \<or>
           \<not> truthy (getProp payload ''role'')
        then JoinIncomplete else InvalidRole)"
  by (auto simp: joinAccepted_def handleJoin_def Let_def)

section \<open>The concrete run\<close>

text \<open>
  The state \<open>pollState\<close> used in the concrete instances below is the one the server
  reaches from its initial state by the events \<open>pollEvents\<close>.
\<close>

lemma pollState_reached:
  "map_sum id fst (run ascii initial pollEvents) = Inr pollState"
  by (simp add: pollEvents_def pollState_def pollRoom_def pollQuestion_def initial_def
      on_message_def on_connection_def joinMsg_def setQuestionMsg_def voteMsg_def
      handleJoin_def handleVote_def handleSetQuestion_def sendError_def getRoom_def
      roomState_def broadcast_def safeSend_def joinKey_def addClient_def emptyRoom_def
      ballotKey_def isInteger_def ascii_def asciiTrim_def asciiLower_def asciiSpace_def
      Let_def fun_eq_iff)

section \<open>Joining\<close>

text \<open>
  Claim C9. A JOIN whose \<^verbatim>\<open>roomId\<close> and \<^verbatim>\<open>name\<close> are not empty and whose role is
  \<^verbatim>\<open>host\<close> or \<^verbatim>\<open>player\<close> binds the room, the name and the role of the session, adds
  the connection to the clients of the room, which is created with no question, no counts,
  total 0, no ballots and no clients when the map does not have it, and sends the snapshot
  of the room to the joining connection and to no other: the state and the messages sent
  are exactly the ones below, in any state of the server.
\<close>

theorem join_binds_session_and_answers_sender:
  assumes "getProp msg ''type'' = Some (JStr ''JOIN'')"
    and "getProp msg ''payload'' = Some payload"
    and "getProp payload ''roomId'' = Some roomId"
    and "getProp payload ''name'' = Some name"
    and "getProp payload ''role'' = Some role"
    and "truthy (Some roomId)" and "truthy (Some name)"
    and "role = JStr ''host'' \<or> role = JStr ''player''"
  shows "on_message js st ws (Some msg) =
     Inr (st\<lparr>rooms := (rooms st)(joinKey st roomId \<mapsto>
                 (roomOrEmpty st (joinKey st roomId))
                   \<lparr>clients := addClient ws (clients (roomOrEmpty st (joinKey st roomId)))\<rparr>),
              meta := (meta st)(ws := \<lparr>m_roomId = Some (joinKey st roomId), m_name = name,
                 m_role = role\<rparr>),
              allocated := (if isObject roomId then Suc (allocated st) else allocated st)\<rparr>,
          safeSend st ws (STATE roomId (question (roomOrEmpty st (joinKey st roomId)))
             (counts (roomOrEmpty st (joinKey st roomId)))
             (total_votes (roomOrEmpty st (joinKey st roomId)))))"
proof -
  have "truthy (Some payload)"
    using assms(3) by (rule getProp_truthy)
  then have "on_message js st ws (Some msg) = handleJoin st ws payload"
    using assms(1,2) by (simp add: on_message_join)
  then show ?thesis
    using handleJoin_ok [OF assms(3-8)] by simp
qed

theorem join_binds_session_and_answers_sender_witness:
  "on_message ascii pollState 3
     (Some (joinMsg (JStr ''R1'') (JStr ''Bea'') (JStr ''player''))) =
   Inr (pollState\<lparr>rooms := [Prim (JStr ''R1'') \<mapsto> pollRoom\<lparr>clients := [1, 2, 3]\<rparr>],
          meta := (meta pollState)(3 := \<lparr>m_roomId = Some (Prim (JStr ''R1'')),
             m_name = JStr ''Bea'', m_role = JStr ''player''\<rparr>)\<rparr>,
        [(3, STATE (JStr ''R1'') (Some pollQuestion) [0, 1] 1)])"
  using join_binds_session_and_answers_sender
     [of "joinMsg (JStr ''R1'') (JStr ''Bea'') (JStr ''player'')"
      "JObj [(''roomId'', JStr ''R1''), (''name'', JStr ''Bea''), (''role'', JStr ''player'')]"
      "JStr ''R1''" "JStr ''Bea''" "JStr ''player''" ascii pollState 3]
  by (simp add: joinMsg_def roomOrEmpty_def joinKey_def pollState_def pollRoom_def
      addClient_def safeSend_def)

text \<open>
  Claim C8. A connection that has not joined has no \<^verbatim>\<open>roomId\<close>. Every command of a
  type other than JOIN it sends is answered by the error that a JOIN must come first, and a
  JOIN that fails the checks of its payload is answered by the error of the failed check;
  in both cases the state of the server, with the session and the clients of every room,
  stays as it is, and the error goes to the sender alone.
\<close>

theorem unjoined_rejected:
  assumes "m_roomId (meta st ws) = None"
    and "truthy (getProp msg ''type'')"
    and "getProp msg ''payload'' = Some payload" and "truthy (Some payload)"
    and "getProp msg ''type'' \<noteq> Some (JStr ''JOIN'') \<or> \<not> joinAccepted payload"
  shows "on_message js st ws (Some msg) =
     Inr (st, safeSend st ws (ERROR
       (if getProp msg ''type'' \<noteq> Some (JStr ''JOIN'') then MustJoinFirst
        else if \<not> truthy (getProp payload ''roomId'') \<or> \<not> truthy (getProp payload ''name'') \<or>
                \<not> truthy (getProp payload ''role'')
          then JoinIncomplete
        else InvalidRole)))"
proof (cases "getProp msg ''type'' = Some (JStr ''JOIN'')")
  case True
  then have "\<not> joinAccepted payload"
    using assms(5) by simp
  then show ?thesis
    using True assms(3,4) by (simp add: on_message_join handleJoin_rejected sendError_def)
next
  case False
  then show ?thesis
    using assms(1-4) by (simp add: on_message_def getProp_or_empty sendError_def)
qed

theorem unjoined_rejected_witness:
  "on_message ascii pollState 3
     (Some (voteMsg (JStr ''q1'') (JNum (Num 0)) (JStr ''Bea''))) =
   Inr (pollState, [(3, ERROR MustJoinFirst)]) \<and>
   on_message ascii pollState 3
     (Some (joinMsg (JStr ''R1'') (JStr ''Bea'') (JStr ''admin''))) =
   Inr (pollState, [(3, ERROR InvalidRole)])"
  using unjoined_rejected [of pollState 3 "voteMsg (JStr ''q1'') (JNum (Num 0)) (JStr ''Bea'')"
      "JObj [(''questionId'', JStr ''q1''), (''optionIndex'', JNum (Num 0)),
         (''name'', JStr ''Bea'')]" ascii]
    unjoined_rejected [of pollState 3 "joinMsg (JStr ''R1'') (JStr ''Bea'') (JStr ''admin'')"
      "JObj [(''roomId'', JStr ''R1''), (''name'', JStr ''Bea''), (''role'', JStr ''admin'')]"
      ascii]
  by (simp add: pollState_def voteMsg_def joinMsg_def joinAccepted_def safeSend_def)

section \<open>Setting the question\<close>

text \<open>
  Claim C7. A joined session whose role is not \<^verbatim>\<open>host\<close> that sends
  HOST_SET_QUESTION gets the error that only the host may create questions, and nothing
  of the state changes: the question, counts, total and ballots of its room are the ones
  before.
\<close>

theorem set_question_forbidden:
  assumes "m_roomId (meta st ws) = Some k" and "rooms st k = Some r"
    and "m_role (meta st ws) \<noteq> JStr ''host''"
    and "getProp msg ''type'' = Some (JStr ''HOST_SET_QUESTION'')"
    and "getProp msg ''payload'' = Some payload" and "truthy (Some payload)"
  shows "on_message js st ws (Some msg) = Inr (st, safeSend st ws (ERROR OnlyHost))"
  using assms
  by (simp add: on_message_joined handleSetQuestion_def sendError_def)

theorem set_question_forbidden_witness:
  "on_message ascii pollState 2
     (Some (setQuestionMsg (JStr ''q2'') (JStr ''Letter?'') [JStr ''A'', JStr ''B''])) =
   Inr (pollState, [(2, ERROR OnlyHost)])"
  using set_question_forbidden [of pollState 2 "Prim (JStr ''R1'')" pollRoom
      "setQuestionMsg (JStr ''q2'') (JStr ''Letter?'') [JStr ''A'', JStr ''B'']"
      "JObj [(''question'', JObj [(''id'', JStr ''q2''), (''text'', JStr ''Letter?''),
         (''options'', JArr [JStr ''A'', JStr ''B''])])]" ascii]
  by (simp add: pollState_def setQuestionMsg_def safeSend_def)

text \<open>
  Claim C4. A host that sends a question with an id and a text that are not empty and
  with two to four options replaces the question of its room, sets the counts to as many
  zeros as there are options, the total to 0 and the ballots to the empty set, and the
  snapshot of the room after that goes to every client of the room whose connection is
  open.
\<close>

theorem set_question_resets_room:
  assumes "m_roomId (meta st ws) = Some k" and "rooms st k = Some r"
    and "m_role (meta st ws) = JStr ''host''"
    and "getProp msg ''type'' = Some (JStr ''HOST_SET_QUESTION'')"
    and "getProp msg ''payload'' = Some payload"
    and "getProp payload ''question'' = Some q"
    and "getProp q ''id'' = Some qid" and "truthy (Some qid)"
    and "getProp q ''text'' = Some qtext" and "truthy (Some qtext)"
    and "getProp q ''options'' = Some (JArr opts)"
    and "2 \<le> length opts" and "length opts \<le> 4"
  shows "on_message js st ws (Some msg) =
     Inr (st\<lparr>rooms := (rooms st)(k \<mapsto>
            r\<lparr>question := Some \<lparr>q_id = qid, q_text = qtext, q_options = opts\<rparr>,
              counts := replicate (length opts) 0, counts_props := {}, total_votes := 0,
              votedBy := {}\<rparr>)\<rparr>,
          concat (map (\<lambda>c. safeSend st c
             (STATE (keyValue k) (Some \<lparr>q_id = qid, q_text = qtext, q_options = opts\<rparr>)
                (replicate (length opts) 0) 0)) (clients r)))"
proof -
  have "truthy (Some payload)"
    using assms(6) by (rule getProp_truthy)
  then have "on_message js st ws (Some msg) = handleSetQuestion st ws k r payload"
    using assms(1,2,4,5) by (simp add: on_message_joined)
  then show ?thesis
    using handleSetQuestion_ok [OF assms(3) assms(2) assms(6-13)] by simp
qed

theorem set_question_resets_room_witness:
  "on_message ascii pollState 1
     (Some (setQuestionMsg (JStr ''q2'') (JStr ''Letter?'') [JStr ''A'', JStr ''B'', JStr ''C''])) =
   Inr (pollState\<lparr>rooms := [Prim (JStr ''R1'') \<mapsto>
          \<lparr>question = Some \<lparr>q_id = JStr ''q2'', q_text = JStr ''Letter?'',
              q_options = [JStr ''A'', JStr ''B'', JStr ''C'']\<rparr>,
           counts = [0, 0, 0], counts_props = {}, total_votes = 0, votedBy = {},
           clients = [1, 2]\<rparr>]\<rparr>,
        [(1, STATE (JStr ''R1'') (Some \<lparr>q_id = JStr ''q2'', q_text = JStr ''Letter?'',
              q_options = [JStr ''A'', JStr ''B'', JStr ''C'']\<rparr>) [0, 0, 0] 0),
         (2, STATE (JStr ''R1'') (Some \<lparr>q_id = JStr ''q2'', q_text = JStr ''Letter?'',
              q_options = [JStr ''A'', JStr ''B'', JStr ''C'']\<rparr>) [0, 0, 0] 0)])"
  using set_question_resets_room [of pollState 1 "Prim (JStr ''R1'')" pollRoom
      "setQuestionMsg (JStr ''q2'') (JStr ''Letter?'') [JStr ''A'', JStr ''B'', JStr ''C'']"
      "JObj [(''question'', JObj [(''id'', JStr ''q2''), (''text'', JStr ''Letter?''),
         (''options'', JArr [JStr ''A'', JStr ''B'', JStr ''C''])])]"
      "JObj [(''id'', JStr ''q2''), (''text'', JStr ''Letter?''),
         (''options'', JArr [JStr ''A'', JStr ''B'', JStr ''C''])]"
      "JStr ''q2''" "JStr ''Letter?''" "[JStr ''A'', JStr ''B'', JStr ''C'']" ascii]
  by (simp add: pollState_def pollRoom_def setQuestionMsg_def safeSend_def numeral_3_eq_3)

text \<open>
  The ballots of the old question do not count against the new one: after the host of
  \<open>pollState\<close> has set a second question, Ana, who voted on the first, votes again and is
  counted.
\<close>

lemma ana_votes_again_on_new_question:
  "map_sum id snd (run ascii pollState
     [Message 1 (Some (setQuestionMsg (JStr ''q2'') (JStr ''Letter?'')
        [JStr ''A'', JStr ''B'', JStr ''C''])),
      Message 2 (Some (voteMsg (JStr ''q2'') (JNum (Num 0)) (JStr ''Ana'')))]) =
   Inr [(1, STATE (JStr ''R1'') (Some \<lparr>q_id = JStr ''q2'', q_text = JStr ''Letter?'',
            q_options = [JStr ''A'', JStr ''B'', JStr ''C'']\<rparr>) [0, 0, 0] 0),
        (2, STATE (JStr ''R1'') (Some \<lparr>q_id = JStr ''q2'', q_text = JStr ''Letter?'',
            q_options = [JStr ''A'', JStr ''B'', JStr ''C'']\<rparr>) [0, 0, 0] 0),
        (1, STATE (JStr ''R1'') (Some \<lparr>q_id = JStr ''q2'', q_text = JStr ''Letter?'',
            q_options = [JStr ''A'', JStr ''B'', JStr ''C'']\<rparr>) [1, 0, 0] 1),
        (2, STATE (JStr ''R1'') (Some \<lparr>q_id = JStr ''q2'', q_text = JStr ''Letter?'',
            q_options = [JStr ''A'', JStr ''B'', JStr ''C'']\<rparr>) [1, 0, 0] 1)]"
  by (simp add: pollState_def pollRoom_def pollQuestion_def
      on_message_def setQuestionMsg_def voteMsg_def
      handleVote_def handleSetQuestion_def sendError_def getRoom_def
      roomState_def broadcast_def safeSend_def
      ballotKey_def isInteger_def ascii_def asciiTrim_def asciiLower_def asciiSpace_def
      Let_def numeral_3_eq_3)

section \<open>Voting\<close>

lemma handleVote_voted:
  assumes "question r = Some q"
    and "strictEq (getProp payload ''questionId'') (q_id q)"
    and "getProp payload ''name'' = Some name" and "truthy (Some name)"
    and "ballotKey js k q name = Inr key" and "key \<in> votedBy r"
  shows "handleVote js st ws k r payload =
     sendError st ws
       (case getProp payload ''optionIndex'' of
          Some (JNum n) \<Rightarrow>
            if numLess0 n \<or> numGeLength n (length (counts r)) then OptionOutOfRange
            else AlreadyVoted
        | _ \<Rightarrow> OptionIndexInvalid)"
  using assms by (auto simp: handleVote_def Let_def split: option.splits json.splits)

text \<open>
  Claim C2. Once the ballot key of a name is in \<^verbatim>\<open>votedBy\<close>, a vote for the active
  question under a name of the same key is never counted, whatever option index it
  carries: with an index that passes the checks of lines 111 and 112 it is answered by
  the error that the voter has voted, with any other index by the error of that check. The
  error goes to the sender alone and the state stays as it is.
\<close>

theorem duplicate_vote_rejected:
  assumes "m_roomId (meta st ws) = Some k" and "rooms st k = Some r"
    and "question r = Some q"
    and "getProp msg ''type'' = Some (JStr ''VOTE'')"
    and "getProp msg ''payload'' = Some payload"
    and "strictEq (getProp payload ''questionId'') (q_id q)"
    and "getProp payload ''name'' = Some name" and "truthy (Some name)"
    and "ballotKey js k q name = Inr key" and "key \<in> votedBy r"
  shows "on_message js st ws (Some msg) =
     Inr (st, safeSend st ws (ERROR
       (case getProp payload ''optionIndex'' of
          Some (JNum n) \<Rightarrow>
            if numLess0 n \<or> numGeLength n (length (counts r)) then OptionOutOfRange
            else AlreadyVoted
        | _ \<Rightarrow> OptionIndexInvalid)))"
proof -
  have "truthy (Some payload)"
    using assms(7) by (rule getProp_truthy)
  then have "on_message js st ws (Some msg) = handleVote js st ws k r payload"
    using assms(1,2,4,5) by (simp add: on_message_joined)
  then show ?thesis
    using handleVote_voted [OF assms(3) assms(6-10)] by (simp add: sendError_def)
qed

theorem duplicate_vote_rejected_witness:
  "on_message ascii pollState 2
     (Some (voteMsg (JStr ''q1'') (JNum (Num 0)) (JStr '' ANA ''))) =
   Inr (pollState, [(2, ERROR AlreadyVoted)])"
  using duplicate_vote_rejected [of pollState 2 "Prim (JStr ''R1'')" pollRoom pollQuestion
      "voteMsg (JStr ''q1'') (JNum (Num 0)) (JStr '' ANA '')"
      "JObj [(''questionId'', JStr ''q1''), (''optionIndex'', JNum (Num 0)),
         (''name'', JStr '' ANA '')]"
      "JStr '' ANA ''" ascii "''R1:q1:ana''"]
  by (simp add: pollState_def pollRoom_def pollQuestion_def voteMsg_def safeSend_def
      ballotKey_def ascii_def asciiTrim_def asciiLower_def asciiSpace_def)

section \<open>Malformed input\<close>

lemma handleSetQuestion_rejected:
  "\<not> questionAccepted payload \<Longrightarrow> \<exists>e. handleSetQuestion st ws k r payload = sendError st ws e"
  by (auto simp: questionAccepted_def handleSetQuestion_def Let_def
      split: option.splits json.splits)

lemma handleVote_incomplete:
  "getProp payload ''questionId'' = None \<or> getProp payload ''optionIndex'' = None \<or>
     \<not> truthy (getProp payload ''name'') \<Longrightarrow>
   \<exists>e. handleVote js st ws k r payload = sendError st ws e"
  by (auto simp: handleVote_def Let_def split: option.splits json.splits)

text \<open>
  Claim C6. Input that does not parse, that lacks a type or a payload, whose type is
  none of the three commands, or whose payload lacks a required field is answered by one
  ERROR, sent through \<^verbatim>\<open>safeSend\<close> to the connection it came from and to no other, and
  the state of the server after it is the state before: no question, counts, total,
  ballots or clients of any room change.
\<close>

theorem malformed_input_only_answers_sender:
  assumes "malformed parsed" and "sessionHasRoom st ws"
  shows "\<exists>e. on_message js st ws parsed = Inr (st, safeSend st ws (ERROR e))"
proof (cases parsed)
  case None
  then show ?thesis
    by (auto simp: on_message_def sendError_def)
next
  case (Some msg)
  show ?thesis
  proof (cases "truthy (getProp msg ''type'') \<and> truthy (getProp msg ''payload'')")
    case False
    then show ?thesis
      using Some by (auto simp: on_message_def getProp_or_empty sendError_def)
  next
    case True
    then obtain payload where p: "getProp msg ''payload'' = Some payload" "truthy (Some payload)"
      by (cases "getProp msg ''payload''") auto
    have ty: "truthy (getProp msg ''type'')"
      using True by simp
    show ?thesis
    proof (cases "getProp msg ''type'' = Some (JStr ''JOIN'')")
      case True
      then have "\<not> joinAccepted payload"
        using assms(1) Some p ty by (simp add: malformed_def)
      then show ?thesis
        using True Some p by (auto simp: on_message_join handleJoin_rejected sendError_def)
    next
      case notJoin: False
      show ?thesis
      proof (cases "m_roomId (meta st ws)")
        case None
        then show ?thesis
          using Some notJoin p ty by (auto simp: on_message_def getProp_or_empty sendError_def)
      next
        case (Some k)
        then obtain r where r: "rooms st k = Some r"
          using assms(2) by (auto simp: sessionHasRoom_def)
        have om: "on_message js st ws (Some msg) =
            (if getProp msg ''type'' = Some (JStr ''HOST_SET_QUESTION'')
               then handleSetQuestion st ws k r payload
             else if getProp msg ''type'' = Some (JStr ''VOTE'')
               then handleVote js st ws k r payload
             else sendError st ws UnsupportedType)"
          using on_message_joined [OF ty _ notJoin Some r] p by simp
        consider (hsq) "getProp msg ''type'' = Some (JStr ''HOST_SET_QUESTION'')"
            "\<not> questionAccepted payload"
          | (vote) "getProp msg ''type'' = Some (JStr ''VOTE'')"
            "getProp payload ''questionId'' = None \<or> getProp payload ''optionIndex'' = None \<or>
               \<not> truthy (getProp payload ''name'')"
          | (other) "getProp msg ''type'' \<noteq> Some (JStr ''HOST_SET_QUESTION'')"
            "getProp msg ''type'' \<noteq> Some (JStr ''VOTE'')"
          using assms(1) \<open>parsed = Some msg\<close> p ty notJoin
          by (auto simp: malformed_def)
        then show ?thesis
        proof cases
          case hsq
          then show ?thesis
            using om handleSetQuestion_rejected [OF hsq(2), of st ws k r] \<open>parsed = Some msg\<close>
            by (auto simp: sendError_def)
        next
          case vote
          then show ?thesis
            using om handleVote_incomplete [OF vote(2), of js st ws k r] \<open>parsed = Some msg\<close>
            by (auto simp: sendError_def)
        next
          case other
          then show ?thesis
            using om \<open>parsed = Some msg\<close> by (auto simp: sendError_def)
        qed
      qed
    qed
  qed
qed

theorem malformed_input_only_answers_sender_witness:
  "malformed (Some (voteMsg (JStr ''q1'') (JNum (Num 0)) JNull)) \<and>
   sessionHasRoom pollState 2 \<and>
   (\<exists>e. on_message ascii pollState 2 (Some (voteMsg (JStr ''q1'') (JNum (Num 0)) JNull)) =
      Inr (pollState, [(2, ERROR e)]))"
proof -
  have m: "malformed (Some (voteMsg (JStr ''q1'') (JNum (Num 0)) JNull))"
    by (simp add: malformed_def voteMsg_def)
  have h: "sessionHasRoom pollState 2"
    by (simp add: sessionHasRoom_def pollState_def)
  have s: "safeSend pollState 2 m = [(2, m)]" for m
    by (simp add: safeSend_def pollState_def)
  show ?thesis
    using malformed_input_only_answers_sender [OF m h, of ascii] m h by (simp add: s)
qed

section \<open>What a message can change\<close>

lemma roomOrEmpty_Some [simp]: "rooms st k = Some r \<Longrightarrow> roomOrEmpty st k = r"
  by (simp add: roomOrEmpty_def)

lemma roomOrEmpty_None [simp]: "rooms st k = None \<Longrightarrow> roomOrEmpty st k = emptyRoom"
  by (simp add: roomOrEmpty_def)

lemma incrementCount_fields [simp]:
  "clients (incrementCount n x) = clients x"
  "total_votes (incrementCount n x) = total_votes x"
  "question (incrementCount n x) = question x"
  "votedBy (incrementCount n x) = votedBy x"
  by (cases n; simp)+

lemma handleVote_result:
  assumes "handleVote js st ws k r payload = Inr (st', out)"
  shows "st' = st \<or>
     (\<exists>n key. getProp payload ''optionIndex'' = Some (JNum n) \<and> \<not> numLess0 n \<and>
        \<not> numGeLength n (length (counts r)) \<and> key \<notin> votedBy r \<and>
        st' = st\<lparr>rooms := (rooms st)(k \<mapsto> countedVote n key r)\<rparr>)"
  using assms
  by (auto simp: handleVote_def sendError_def roomState_def broadcast_def getRoom_def Let_def
      countedVote_def split: option.splits json.splits sum.splits if_splits)

lemma handleSetQuestion_result:
  assumes "handleSetQuestion st ws k r payload = Inr (st', out)"
  shows "st' = st \<or>
     (\<exists>q. m_role (meta st ws) = JStr ''host'' \<and>
        st' = st\<lparr>rooms := (rooms st)(k \<mapsto> newQuestion q r)\<rparr>)"
proof (cases "st' = st")
  case True
  then show ?thesis by simp
next
  case False
  then obtain qid qtext opts where "m_role (meta st ws) = JStr ''host''"
    "st' = st\<lparr>rooms := (rooms st)(k \<mapsto> r\<lparr>question :=
        Some \<lparr>q_id = qid, q_text = qtext, q_options = opts\<rparr>,
        counts := replicate (length opts) 0, counts_props := {}, total_votes := 0,
        votedBy := {}\<rparr>)\<rparr>"
    using assms
    by (auto simp: handleSetQuestion_def sendError_def roomState_def broadcast_def getRoom_def
        Let_def split: option.splits json.splits if_splits)
  then have "m_role (meta st ws) = JStr ''host'' \<and>
      st' = st\<lparr>rooms := (rooms st)(k \<mapsto>
        newQuestion \<lparr>q_id = qid, q_text = qtext, q_options = opts\<rparr> r)\<rparr>"
    by (simp add: newQuestion_def)
  then show ?thesis by blast
qed


lemma truthy_SomeE: "truthy x \<Longrightarrow> \<exists>v. x = Some v"
  by (cases x) simp_all

lemma acceptedJoin_fields:
  assumes "acceptedJoin msg = Some a"
  shows "\<exists>payload name role. getProp msg ''type'' = Some (JStr ''JOIN'') \<and>
     getProp msg ''payload'' = Some payload \<and> truthy (Some payload) \<and>
     getProp payload ''roomId'' = Some a \<and> getProp payload ''name'' = Some name \<and>
     getProp payload ''role'' = Some role \<and> truthy (Some a) \<and> truthy (Some name) \<and>
     (role = JStr ''host'' \<or> role = JStr ''player'')"
proof -
  from assms obtain payload where p: "getProp msg ''type'' = Some (JStr ''JOIN'')"
    "getProp msg ''payload'' = Some payload" "joinAccepted payload"
    "getProp payload ''roomId'' = Some a"
    by (auto simp: acceptedJoin_def split: if_splits option.splits)
  from p(3) have t: "truthy (getProp payload ''name'')"
    "getProp payload ''role'' = Some (JStr ''player'') \<or>
     getProp payload ''role'' = Some (JStr ''host'')"
    by (simp_all add: joinAccepted_def)
  from t(1) obtain name where n: "getProp payload ''name'' = Some name"
    using truthy_SomeE by blast
  from t(2) obtain role where "getProp payload ''role'' = Some role"
    "role = JStr ''host'' \<or> role = JStr ''player''"
    by blast
  moreover note n
  moreover have "truthy (Some name)"
    using t(1) n by simp
  moreover have "truthy (Some a)"
    using p(3,4) by (simp add: joinAccepted_def)
  moreover have "truthy (Some payload)"
    using p(4) by (rule getProp_truthy)
  ultimately show ?thesis
    using p by blast
qed

lemma on_message_accepted_join:
  assumes "acceptedJoin msg = Some a"
  shows "\<exists>name role. on_message js st ws (Some msg) =
     Inr (joinedState st ws a name role,
          safeSend st ws (STATE a (question (roomOrEmpty st (joinKey st a)))
             (counts (roomOrEmpty st (joinKey st a)))
             (total_votes (roomOrEmpty st (joinKey st a)))))"
proof -
  from acceptedJoin_fields [OF assms] obtain payload name role where
    f: "getProp msg ''type'' = Some (JStr ''JOIN'')" "getProp msg ''payload'' = Some payload"
      "truthy (Some payload)" "getProp payload ''roomId'' = Some a"
      "getProp payload ''name'' = Some name" "getProp payload ''role'' = Some role"
      "truthy (Some a)" "truthy (Some name)" "role = JStr ''host'' \<or> role = JStr ''player''"
    by blast
  have "on_message js st ws (Some msg) = handleJoin st ws payload"
    using f(1-3) by (rule on_message_join)
  then show ?thesis
    using handleJoin_ok [OF f(4-9), of st ws] by (auto simp: joinedState_def)
qed

lemma on_message_result:
  assumes "on_message js st ws parsed = Inr (st', out)"
  shows "st' = st \<or>
     (\<exists>k r'. m_roomId (meta st ws) = Some k \<and> st' = st\<lparr>rooms := (rooms st)(k \<mapsto> r')\<rparr> \<and>
        (r' = roomOrEmpty st k \<or>
         (\<exists>q. m_role (meta st ws) = JStr ''host'' \<and> r' = newQuestion q (roomOrEmpty st k)) \<or>
         (\<exists>n key. optionIndexOf parsed = Some (JNum n) \<and> \<not> numLess0 n \<and>
            \<not> numGeLength n (length (counts (roomOrEmpty st k))) \<and>
            key \<notin> votedBy (roomOrEmpty st k) \<and>
            r' = countedVote n key (roomOrEmpty st k)))) \<or>
     (\<exists>msg a name role. parsed = Some msg \<and> acceptedJoin msg = Some a \<and>
        st' = joinedState st ws a name role)"
proof (cases parsed)
  case None
  then show ?thesis
    using assms by (simp add: on_message_def sendError_def)
next
  case (Some msg)
  show ?thesis
  proof (cases "truthy (getProp msg ''type'') \<and> truthy (getProp msg ''payload'')")
    case False
    then show ?thesis
      using assms Some by (auto simp: on_message_def getProp_or_empty sendError_def)
  next
    case True
    then obtain payload where p: "getProp msg ''payload'' = Some payload" "truthy (Some payload)"
      by (cases "getProp msg ''payload''") auto
    have ty: "truthy (getProp msg ''type'')"
      using True by simp
    show ?thesis
    proof (cases "getProp msg ''type'' = Some (JStr ''JOIN'')")
      case isJoin: True
      show ?thesis
      proof (cases "joinAccepted payload")
        case True
        then have "truthy (getProp payload ''roomId'')"
          by (simp add: joinAccepted_def)
        then obtain a where "getProp payload ''roomId'' = Some a"
          using truthy_SomeE by blast
        then have a: "acceptedJoin msg = Some a"
          using isJoin p \<open>joinAccepted payload\<close> by (simp add: acceptedJoin_def)
        from on_message_accepted_join [OF a, of js st ws] show ?thesis
          using assms Some a by auto
      next
        case False
        then show ?thesis
          using assms Some isJoin p
          by (simp add: on_message_join handleJoin_rejected sendError_def)
      qed
    next
      case notJoin: False
      show ?thesis
      proof (cases "m_roomId (meta st ws)")
        case None
        then show ?thesis
          using assms Some notJoin p ty
          by (simp add: on_message_def getProp_or_empty sendError_def)
      next
        case (Some k)
        let ?r = "roomOrEmpty st k"
        define st1 where "st1 = snd (getRoom k st)"
        have g: "getRoom k st = (?r, st1)"
          by (cases "rooms st k") (simp_all add: st1_def getRoom_def)
        have st1: "st1 = st \<or> st1 = st\<lparr>rooms := (rooms st)(k \<mapsto> ?r)\<rparr>"
          by (cases "rooms st k") (simp_all add: st1_def getRoom_def)
        then have up: "st1\<lparr>rooms := (rooms st1)(k \<mapsto> x)\<rparr> = st\<lparr>rooms := (rooms st)(k \<mapsto> x)\<rparr>"
          and role: "m_role (meta st1 ws) = m_role (meta st ws)" for x
          by auto
        have oi: "optionIndexOf parsed = getProp payload ''optionIndex''"
          using \<open>parsed = Some msg\<close> p by (simp add: optionIndexOf_def)
        have om: "on_message js st ws (Some msg) =
            (if getProp msg ''type'' = Some (JStr ''HOST_SET_QUESTION'')
               then handleSetQuestion st1 ws k ?r payload
             else if getProp msg ''type'' = Some (JStr ''VOTE'')
               then handleVote js st1 ws k ?r payload
             else sendError st1 ws UnsupportedType)"
          using ty p notJoin Some g by (simp add: on_message_def getProp_or_empty)
        have res: "on_message js st ws (Some msg) = Inr (st', out)"
          using assms \<open>parsed = Some msg\<close> by simp
        have "st' = st1 \<or>
            (\<exists>q. m_role (meta st ws) = JStr ''host'' \<and>
               st' = st\<lparr>rooms := (rooms st)(k \<mapsto> newQuestion q ?r)\<rparr>) \<or>
            (\<exists>n key. optionIndexOf parsed = Some (JNum n) \<and> \<not> numLess0 n \<and>
               \<not> numGeLength n (length (counts ?r)) \<and> key \<notin> votedBy ?r \<and>
               st' = st\<lparr>rooms := (rooms st)(k \<mapsto> countedVote n key ?r)\<rparr>)"
        proof (cases "getProp msg ''type'' = Some (JStr ''HOST_SET_QUESTION'')")
          case True
          then have "handleSetQuestion st1 ws k ?r payload = Inr (st', out)"
            using om res by simp
          from handleSetQuestion_result [OF this] show ?thesis
            by (auto simp: up role)
        next
          case notSet: False
          show ?thesis
          proof (cases "getProp msg ''type'' = Some (JStr ''VOTE'')")
            case True
            then have "handleVote js st1 ws k ?r payload = Inr (st', out)"
              using om res notSet by simp
            from handleVote_result [OF this] show ?thesis
              by (auto simp: up oi)
          next
            case False
            then show ?thesis
              using om res notSet by (simp add: sendError_def)
          qed
        qed
        then show ?thesis
          using st1 Some by blast
      qed
    qed
  qed
qed

lemma on_message_frame:
  assumes "on_message js st ws parsed = Inr (st', out)"
  shows "st' = st \<or>
     (\<exists>k r'. m_roomId (meta st ws) = Some k \<and> st' = st\<lparr>rooms := (rooms st)(k \<mapsto> r')\<rparr> \<and>
        clients r' = clients (roomOrEmpty st k)) \<or>
     (\<exists>msg a name role. parsed = Some msg \<and> acceptedJoin msg = Some a \<and>
        st' = joinedState st ws a name role)"
proof -
  have c: "clients (newQuestion q r) = clients r" "clients (countedVote n key r) = clients r"
    for q n key r
    by (simp_all add: newQuestion_def countedVote_def)
  from on_message_result [OF assms] consider (same) "st' = st"
    | (room) k r' where "m_roomId (meta st ws) = Some k"
        "st' = st\<lparr>rooms := (rooms st)(k \<mapsto> r')\<rparr>" "clients r' = clients (roomOrEmpty st k)"
    | (join) msg a name role where "parsed = Some msg" "acceptedJoin msg = Some a"
        "st' = joinedState st ws a name role"
    by (elim disjE exE conjE) (simp_all add: c)
  then show ?thesis
    by cases blast+
qed

section \<open>Membership of rooms along a run\<close>

lemma isMember_roomOrEmpty: "isMember st k ws = (ws \<in> set (clients (roomOrEmpty st k)))"
  by (cases "rooms st k") (simp_all add: isMember_def emptyRoom_def)

lemma roomOrEmpty_update:
  "roomOrEmpty (st\<lparr>rooms := (rooms st)(k \<mapsto> r)\<rparr>) k' = (if k' = k then r else roomOrEmpty st k')"
  by (simp add: roomOrEmpty_def)

lemma roomOrEmpty_joinedState:
  "roomOrEmpty (joinedState st c a name role) k =
     (if k = joinKey st a
      then (roomOrEmpty st k)\<lparr>clients := addClient c (clients (roomOrEmpty st k))\<rparr>
      else roomOrEmpty st k)"
  by (simp add: roomOrEmpty_def joinedState_def)

lemma set_addClient: "set (addClient c cs) = insert c (set cs)"
  by (auto simp: addClient_def)

lemma roomOrEmpty_on_close:
  "roomOrEmpty (on_close st c) k =
     (if m_roomId (meta st c) = Some k
      then (roomOrEmpty st k)\<lparr>clients := removeAll c (clients (roomOrEmpty st k))\<rparr>
      else roomOrEmpty st k)"
  by (cases "m_roomId (meta st c)"; cases "rooms st (the (m_roomId (meta st c)))")
     (auto simp: on_close_def getRoom_def roomOrEmpty_def)

lemma roomOrEmpty_readyState [simp]:
  "roomOrEmpty (st\<lparr>readyState := f\<rparr>) k = roomOrEmpty st k"
  by (simp add: roomOrEmpty_def)

lemma roomOrEmpty_meta [simp]:
  "roomOrEmpty (st\<lparr>meta := f\<rparr>) k = roomOrEmpty st k"
  by (simp add: roomOrEmpty_def)

lemma on_message_clients:
  assumes "on_message js st c parsed = Inr (st', out)"
  shows "set (clients (roomOrEmpty st' k)) = set (clients (roomOrEmpty st k)) \<or>
     set (clients (roomOrEmpty st' k)) = insert c (set (clients (roomOrEmpty st k)))"
proof -
  consider (same) "st' = st"
    | (room) k' r' where "st' = st\<lparr>rooms := (rooms st)(k' \<mapsto> r')\<rparr>"
        "clients r' = clients (roomOrEmpty st k')"
    | (join) a name role where "st' = joinedState st c a name role"
    using on_message_frame [OF assms] by blast
  then show ?thesis
  proof cases
    case same
    then show ?thesis by simp
  next
    case room
    then have "clients (roomOrEmpty st' k) = clients (roomOrEmpty st k)"
      by (simp add: roomOrEmpty_update)
    then show ?thesis by simp
  next
    case join
    then show ?thesis
      by (simp add: roomOrEmpty_joinedState set_addClient)
  qed
qed

lemma step_clients:
  assumes "step js st e = Inr (st', out)"
  shows "set (clients (roomOrEmpty st' k)) = set (clients (roomOrEmpty st k)) \<or>
     set (clients (roomOrEmpty st' k)) = insert (connOf e) (set (clients (roomOrEmpty st k))) \<or>
     e = Close (connOf e) \<and>
       set (clients (roomOrEmpty st' k)) = set (clients (roomOrEmpty st k)) - {connOf e}"
proof (cases e)
  case (Connection c)
  then have "st' = on_connection (st\<lparr>readyState := (readyState st)(c := OPEN)\<rparr>) c"
    using assms by simp
  then have "roomOrEmpty st' k = roomOrEmpty st k"
    by (simp add: on_connection_def)
  then show ?thesis by simp
next
  case (Message c parsed)
  then show ?thesis
    using assms on_message_clients [of js st c parsed st' out k] by simp
next
  case (Close c)
  then have "st' = on_close (st\<lparr>readyState := (readyState st)(c := CLOSED)\<rparr>) c"
    using assms by simp
  then have "set (clients (roomOrEmpty st' k)) = set (clients (roomOrEmpty st k)) \<or>
      set (clients (roomOrEmpty st' k)) = set (clients (roomOrEmpty st k)) - {c}"
    by (simp add: roomOrEmpty_on_close)
  then show ?thesis
    using Close by auto
qed

lemma step_keeps_member:
  assumes "step js st e = Inr (st', out)" and "e \<noteq> Close ws" and "isMember st k ws"
  shows "isMember st' k ws"
  using step_clients [OF assms(1), of k] assms(2,3)
  by (cases e) (auto simp: isMember_roomOrEmpty)

lemma step_other_keeps_nonmember:
  assumes "step js st e = Inr (st', out)" and "connOf e \<noteq> ws" and "\<not> isMember st k ws"
  shows "\<not> isMember st' k ws"
  using step_clients [OF assms(1), of k] assms(2,3)
  by (auto simp: isMember_roomOrEmpty)

lemma on_message_other_meta:
  assumes "on_message js st c parsed = Inr (st', out)" and "c \<noteq> ws"
  shows "meta st' ws = meta st ws"
  using on_message_frame [OF assms(1)] assms(2)
  by (auto simp: joinedState_def)

lemma step_other_keeps_meta:
  assumes "step js st e = Inr (st', out)" and "connOf e \<noteq> ws"
  shows "meta st' ws = meta st ws"
proof (cases e)
  case (Connection c)
  then show ?thesis
    using assms by (auto simp: on_connection_def)
next
  case (Message c parsed)
  then show ?thesis
    using assms on_message_other_meta [of js st c parsed st' out ws] by auto
next
  case (Close c)
  then show ?thesis
    using assms
    by (cases "m_roomId (meta st c)") (auto simp: on_close_def getRoom_def split: option.splits)
qed

lemma run_Cons_Inr:
  "run js st (e # es) = Inr (st', out) \<Longrightarrow>
   \<exists>st1 out1 out2. step js st e = Inr (st1, out1) \<and> run js st1 es = Inr (st', out2) \<and>
     out = out1 @ out2"
  by (auto split: sum.splits)

lemma run_keeps_member:
  "run js st es = Inr (st', out) \<Longrightarrow> Close ws \<notin> set es \<Longrightarrow> isMember st k ws \<Longrightarrow>
   isMember st' k ws"
proof (induction es arbitrary: st out)
  case Nil
  then show ?case by simp
next
  case (Cons e es)
  from run_Cons_Inr [OF Cons.prems(1)] obtain st1 out1 out2 where
    s: "step js st e = Inr (st1, out1)" "run js st1 es = Inr (st', out2)"
    by blast
  have "isMember st1 k ws"
    using step_keeps_member [OF s(1) _ Cons.prems(3)] Cons.prems(2) by auto
  then show ?case
    using Cons.IH [OF s(2)] Cons.prems(2) by simp
qed

lemma run_other_keeps_nonmember:
  "run js st es = Inr (st', out) \<Longrightarrow> ws \<notin> connOf ` set es \<Longrightarrow> \<not> isMember st k ws \<Longrightarrow>
   \<not> isMember st' k ws"
proof (induction es arbitrary: st out)
  case Nil
  then show ?case by simp
next
  case (Cons e es)
  from run_Cons_Inr [OF Cons.prems(1)] obtain st1 out1 out2 where
    s: "step js st e = Inr (st1, out1)" "run js st1 es = Inr (st', out2)"
    by blast
  have "\<not> isMember st1 k ws"
    using step_other_keeps_nonmember [OF s(1) _ Cons.prems(3)] Cons.prems(2) by auto
  then show ?case
    using Cons.IH [OF s(2)] Cons.prems(2) by simp
qed

lemma run_other_keeps_meta:
  "run js st es = Inr (st', out) \<Longrightarrow> ws \<notin> connOf ` set es \<Longrightarrow> meta st' ws = meta st ws"
proof (induction es arbitrary: st out)
  case Nil
  then show ?case by simp
next
  case (Cons e es)
  from run_Cons_Inr [OF Cons.prems(1)] obtain st1 out1 out2 where
    s: "step js st e = Inr (st1, out1)" "run js st1 es = Inr (st', out2)"
    by blast
  have "meta st1 ws = meta st ws"
    using step_other_keeps_meta [OF s(1)] Cons.prems(2) by auto
  then show ?case
    using Cons.IH [OF s(2)] Cons.prems(2) by simp
qed

lemma other_events_not_close: "ws \<notin> connOf ` set es \<Longrightarrow> Close ws \<notin> set es"
  by force

lemma join_makes_member:
  assumes "acceptedJoin msg = Some a" and "on_message js st ws (Some msg) = Inr (st', out)"
  shows "isMember st' (joinKey st a) ws \<and> m_roomId (meta st' ws) = Some (joinKey st a)"
proof -
  from on_message_accepted_join [OF assms(1), of js st ws] assms(2)
  obtain name role where "st' = joinedState st ws a name role"
    by auto
  then show ?thesis
    by (simp add: isMember_roomOrEmpty roomOrEmpty_joinedState set_addClient)
       (simp add: joinedState_def)
qed

lemma close_leaves_other_rooms:
  assumes "m_roomId (meta st ws) = Some kB"
  shows "\<not> isMember (on_close (st\<lparr>readyState := f\<rparr>) ws) kB ws"
    and "kA \<noteq> kB \<Longrightarrow>
      isMember (on_close (st\<lparr>readyState := f\<rparr>) ws) kA ws = isMember st kA ws"
  using assms by (simp_all add: isMember_roomOrEmpty roomOrEmpty_on_close)

lemma broadcast_reaches_member:
  assumes "isMember st k ws" and "readyState st ws = OPEN"
  shows "(ws, m) \<in> set (fst (broadcast k m st))"
proof -
  from assms(1) obtain r where r: "rooms st k = Some r" "ws \<in> set (clients r)"
    by (auto simp: isMember_def split: option.splits)
  have "(ws, m) \<in> set (safeSend st ws m)"
    using assms(2) by (simp add: safeSend_def)
  then show ?thesis
    using r by (auto simp: broadcast_existing)
qed

lemma on_message_keeps_binding:
  assumes "on_message js st ws parsed = Inr (st', out)"
    and "\<not> changesBinding ws (Message ws parsed)"
  shows "meta st' ws = meta st ws"
proof -
  consider (same) "st' = st"
    | (room) k r' where "st' = st\<lparr>rooms := (rooms st)(k \<mapsto> r')\<rparr>"
    | (join) msg a where "parsed = Some msg" "acceptedJoin msg = Some a"
    using on_message_frame [OF assms(1)] by blast
  then show ?thesis
  proof cases
    case same
    then show ?thesis by simp
  next
    case room
    then show ?thesis by simp
  next
    case join
    then show ?thesis
      using assms(2) by simp
  qed
qed

lemma step_keeps_binding:
  assumes "step js st e = Inr (st', out)" and "\<not> changesBinding ws e"
  shows "meta st' ws = meta st ws"
proof (cases "connOf e = ws")
  case False
  then show ?thesis
    using step_other_keeps_meta [OF assms(1)] by simp
next
  case True
  then obtain parsed where "e = Message ws parsed"
    using assms(2) by (cases e) auto
  then show ?thesis
    using assms on_message_keeps_binding [of js st ws parsed st' out] by simp
qed

lemma run_keeps_binding:
  "run js st es = Inr (st', out) \<Longrightarrow> list_all (\<lambda>e. \<not> changesBinding ws e) es \<Longrightarrow>
   meta st' ws = meta st ws"
proof (induction es arbitrary: st out)
  case Nil
  then show ?case by simp
next
  case (Cons e es)
  from run_Cons_Inr [OF Cons.prems(1)] obtain st1 out1 out2 where
    s: "step js st e = Inr (st1, out1)" "run js st1 es = Inr (st', out2)"
    by blast
  have "meta st1 ws = meta st ws"
    using step_keeps_binding [OF s(1)] Cons.prems(2) by simp
  then show ?case
    using Cons.IH [OF s(2)] Cons.prems(2) by simp
qed

lemma kept_binding_not_close:
  "list_all (\<lambda>e. \<not> changesBinding ws e) es \<Longrightarrow> Close ws \<notin> set es"
  by (induction es) auto

text \<open>
  Claim C10. A connection joins room A and later, with no close between, room B under
  another key. Between the second JOIN and its close it may send any message but a further
  JOIN that is accepted, and other connections may act at any time. After the second JOIN
  the connection is among the clients of both rooms, so a broadcast to room A still reaches
  it while it is open. Its close removes it from the clients of room B alone: whatever
  other connections do afterwards, it stays among the clients of room A.
\<close>

theorem rejoin_leaves_stale_membership:
  assumes "acceptedJoin msgA = Some a" and "acceptedJoin msgB = Some b"
    and "run js st0 (Message ws (Some msgA) # evs0) = Inr (st1, out1)"
    and "run js st1 (Message ws (Some msgB) # evs1) = Inr (st2, out2)"
    and "run js st2 (Close ws # evs2) = Inr (st3, out3)"
    and "Close ws \<notin> set evs0"
    and "list_all (\<lambda>e. \<not> changesBinding ws e) evs1" and "ws \<notin> connOf ` set evs2"
    and "joinKey st1 b \<noteq> joinKey st0 a"
  shows "isMember st2 (joinKey st0 a) ws \<and> isMember st2 (joinKey st1 b) ws \<and>
     (readyState st2 ws = OPEN \<longrightarrow> (\<forall>m. (ws, m) \<in> set (fst (broadcast (joinKey st0 a) m st2)))) \<and>
     isMember st3 (joinKey st0 a) ws \<and> \<not> isMember st3 (joinKey st1 b) ws"
proof -
  let ?kA = "joinKey st0 a" and ?kB = "joinKey st1 b"
  from run_Cons_Inr [OF assms(3)] obtain sA oA oA' where
    A: "on_message js st0 ws (Some msgA) = Inr (sA, oA)" "run js sA evs0 = Inr (st1, oA')"
    by auto
  have "isMember sA ?kA ws"
    using join_makes_member [OF assms(1) A(1)] by simp
  then have m1: "isMember st1 ?kA ws"
    using run_keeps_member [OF A(2) assms(6)] by simp
  from run_Cons_Inr [OF assms(4)] obtain sB oB oB' where
    B: "on_message js st1 ws (Some msgB) = Inr (sB, oB)" "run js sB evs1 = Inr (st2, oB')"
    by auto
  have sB: "isMember sB ?kB ws" "m_roomId (meta sB ws) = Some ?kB"
    using join_makes_member [OF assms(2) B(1)] by simp_all
  have noClose: "Close ws \<notin> set evs1"
    using assms(7) by (rule kept_binding_not_close)
  have "isMember sB ?kA ws"
    using step_keeps_member [of js st1 "Message ws (Some msgB)" sB oB ws ?kA] B(1) m1 by simp
  then have m2A: "isMember st2 ?kA ws"
    using run_keeps_member [OF B(2) noClose] by simp
  have m2B: "isMember st2 ?kB ws"
    using run_keeps_member [OF B(2) noClose sB(1)] .
  have meta2: "m_roomId (meta st2 ws) = Some ?kB"
    using run_keeps_binding [OF B(2) assms(7)] sB(2) by simp
  from run_Cons_Inr [OF assms(5)] obtain sC oC oC' where
    C: "step js st2 (Close ws) = Inr (sC, oC)" "run js sC evs2 = Inr (st3, oC')"
    by auto
  have sC: "sC = on_close (st2\<lparr>readyState := (readyState st2)(ws := CLOSED)\<rparr>) ws"
    using C(1) by simp
  have "\<not> isMember sC ?kB ws"
    unfolding sC using close_leaves_other_rooms(1) [OF meta2] .
  then have m3B: "\<not> isMember st3 ?kB ws"
    using run_other_keeps_nonmember [OF C(2) assms(8)] by simp
  have "isMember sC ?kA ws"
    unfolding sC using close_leaves_other_rooms(2) [OF meta2, of ?kA] assms(9) m2A by simp
  then have m3A: "isMember st3 ?kA ws"
    using run_keeps_member [OF C(2) other_events_not_close [OF assms(8)]] by simp
  show ?thesis
    using m2A m2B m3A m3B broadcast_reaches_member [OF m2A] by blast
qed

lemma acceptedJoin_joinMsg:
  "truthy (Some a) \<Longrightarrow> truthy (Some n) \<Longrightarrow> r = JStr ''host'' \<or> r = JStr ''player'' \<Longrightarrow>
   acceptedJoin (joinMsg a n r) = Some a"
  by (auto simp: acceptedJoin_def joinMsg_def joinAccepted_def)

lemma on_message_joinMsg:
  assumes "truthy (Some a)" and "truthy (Some n)" and "r = JStr ''host'' \<or> r = JStr ''player''"
  shows "on_message js st ws (Some (joinMsg a n r)) =
     Inr (joinedState st ws a n r,
          safeSend st ws (STATE a (question (roomOrEmpty st (joinKey st a)))
             (counts (roomOrEmpty st (joinKey st a)))
             (total_votes (roomOrEmpty st (joinKey st a)))))"
proof -
  have "on_message js st ws (Some (joinMsg a n r)) =
      handleJoin st ws (JObj [(''roomId'', a), (''name'', n), (''role'', r)])"
    by (rule on_message_join) (simp_all add: joinMsg_def)
  then show ?thesis
    using handleJoin_ok [of "JObj [(''roomId'', a), (''name'', n), (''role'', r)]" a n r st ws]
      assms
    by (simp add: joinedState_def)
qed

text \<open>
  The two votes of the concrete run are answered by an error and leave the state as it
  is: Ana has voted on the question of room \<^verbatim>\<open>R1\<close>, and room \<^verbatim>\<open>R2\<close> has no question.
\<close>

lemma repeatedVote_rejected:
  assumes "m_roomId (meta st 2) = Some (Prim (JStr ''R1''))"
    and "rooms st (Prim (JStr ''R1'')) = Some r" and "question r = Some pollQuestion"
    and "counts r = [0, 1]" and "''R1:q1:ana'' \<in> votedBy r"
  shows "on_message ascii st 2 (Some repeatedVote) = Inr (st, safeSend st 2 (ERROR AlreadyVoted))"
proof -
  have "on_message ascii st 2 (Some repeatedVote) =
      handleVote ascii st 2 (Prim (JStr ''R1'')) r
        (JObj [(''questionId'', JStr ''q1''), (''optionIndex'', JNum (Num 0)),
           (''name'', JStr ''Ana'')])"
    using assms(1,2) by (simp add: on_message_joined repeatedVote_def voteMsg_def)
  moreover have "ballotKey ascii (Prim (JStr ''R1'')) pollQuestion (JStr ''Ana'') =
      Inr ''R1:q1:ana''"
    by (simp add: ballotKey_def pollQuestion_def ascii_def asciiTrim_def asciiLower_def
        asciiSpace_def)
  ultimately show ?thesis
    using assms(3-5)
      handleVote_voted [of r pollQuestion
        "JObj [(''questionId'', JStr ''q1''), (''optionIndex'', JNum (Num 0)),
           (''name'', JStr ''Ana'')]" "JStr ''Ana''" ascii "Prim (JStr ''R1'')" "''R1:q1:ana''"
        st 2]
    by (simp add: pollQuestion_def sendError_def)
qed

lemma earlyVote_rejected:
  assumes "m_roomId (meta st ws) = Some k" and "rooms st k = Some r" and "question r = None"
  shows "on_message ascii st ws (Some earlyVote) =
     Inr (st, safeSend st ws (ERROR NoActiveQuestion))"
proof -
  have "on_message ascii st ws (Some earlyVote) =
      handleVote ascii st ws k r
        (JObj [(''questionId'', JStr ''q1''), (''optionIndex'', JNum (Num 0)),
           (''name'', JStr ''Bea'')])"
    using assms(1,2) by (simp add: on_message_joined earlyVote_def voteMsg_def)
  then show ?thesis
    using assms(3) by (simp add: handleVote_def sendError_def)
qed

theorem rejoin_leaves_stale_membership_witness:
  "isMember inBothRooms (Prim (JStr ''R1'')) 3 \<and> isMember inBothRooms (Prim (JStr ''R2'')) 3 \<and>
   (\<forall>m. (3, m) \<in> set (fst (broadcast (Prim (JStr ''R1'')) m inBothRooms))) \<and>
   isMember afterClose (Prim (JStr ''R1'')) 3 \<and> \<not> isMember afterClose (Prim (JStr ''R2'')) 3"
proof -
  let ?A = "joinMsg (JStr ''R1'') (JStr ''Bea'') (JStr ''player'')"
  let ?B = "joinMsg (JStr ''R2'') (JStr ''Bea'') (JStr ''player'')"
  let ?s1 = "joinedState pollState 3 (JStr ''R1'') (JStr ''Bea'') (JStr ''player'')"
  let ?R1 = "Prim (JStr ''R1'')" and ?R2 = "Prim (JStr ''R2'')"
  have a: "acceptedJoin ?A = Some (JStr ''R1'')" and b: "acceptedJoin ?B = Some (JStr ''R2'')"
    by (simp_all add: acceptedJoin_joinMsg)
  have v1: "on_message ascii ?s1 2 (Some repeatedVote) =
      Inr (?s1, safeSend ?s1 2 (ERROR AlreadyVoted))"
    by (rule repeatedVote_rejected [where r = "pollRoom\<lparr>clients := [1, 2, 3]\<rparr>"])
       (simp_all add: joinedState_def joinKey_def roomOrEmpty_def pollState_def pollRoom_def
          addClient_def)
  have v2: "on_message ascii inBothRooms 3 (Some earlyVote) =
      Inr (inBothRooms, safeSend inBothRooms 3 (ERROR NoActiveQuestion))"
    by (rule earlyVote_rejected [where k = ?R2 and r = "emptyRoom\<lparr>clients := [3]\<rparr>"])
       (simp_all add: inBothRooms_def joinedState_def joinKey_def roomOrEmpty_def
          pollState_def emptyRoom_def addClient_def)
  have v3: "on_message ascii afterClose 2 (Some repeatedVote) =
      Inr (afterClose, safeSend afterClose 2 (ERROR AlreadyVoted))"
    by (rule repeatedVote_rejected [where r = "pollRoom\<lparr>clients := [1, 2, 3]\<rparr>"])
       (simp_all add: afterClose_def on_close_def getRoom_def inBothRooms_def joinedState_def
          joinKey_def roomOrEmpty_def pollState_def pollRoom_def emptyRoom_def addClient_def)
  have r1: "run ascii pollState [Message 3 (Some ?A), Message 2 (Some repeatedVote)] =
      Inr (?s1, safeSend pollState 3 (STATE (JStr ''R1'')
        (question (roomOrEmpty pollState (joinKey pollState (JStr ''R1''))))
        (counts (roomOrEmpty pollState (joinKey pollState (JStr ''R1''))))
        (total_votes (roomOrEmpty pollState (joinKey pollState (JStr ''R1''))))) @
        safeSend ?s1 2 (ERROR AlreadyVoted))"
    by (simp add: on_message_joinMsg v1)
  have r2: "run ascii ?s1 [Message 3 (Some ?B), Message 3 (Some earlyVote)] =
      Inr (inBothRooms, safeSend ?s1 3 (STATE (JStr ''R2'')
        (question (roomOrEmpty ?s1 (joinKey ?s1 (JStr ''R2''))))
        (counts (roomOrEmpty ?s1 (joinKey ?s1 (JStr ''R2''))))
        (total_votes (roomOrEmpty ?s1 (joinKey ?s1 (JStr ''R2''))))) @
        safeSend inBothRooms 3 (ERROR NoActiveQuestion))"
    using v2 by (simp add: on_message_joinMsg inBothRooms_def)
  have r3: "run ascii inBothRooms [Close 3, Message 2 (Some repeatedVote)] =
      Inr (afterClose, safeSend afterClose 2 (ERROR AlreadyVoted))"
    using v3 by (simp add: afterClose_def)
  have h6: "Close 3 \<notin> set [Message 2 (Some repeatedVote)]"
    by simp
  have h7: "list_all (\<lambda>e. \<not> changesBinding 3 e) [Message 3 (Some earlyVote)]"
    by (simp add: earlyVote_def voteMsg_def acceptedJoin_def)
  have h8: "3 \<notin> connOf ` set [Message 2 (Some repeatedVote)]"
    by simp
  have k: "joinKey ?s1 (JStr ''R2'') \<noteq> joinKey pollState (JStr ''R1'')"
    by (simp add: joinKey_def)
  have "readyState inBothRooms 3 = OPEN"
    by (simp add: inBothRooms_def joinedState_def pollState_def)
  then show ?thesis
    using rejoin_leaves_stale_membership [OF a b r1 r2 r3 h6 h7 h8 k]
    by (simp add: joinKey_def)
qed

section \<open>Votes the checks let through\<close>

lemma not_isInteger_half: "\<not> isInteger (1 / 2)"
proof -
  have "\<lfloor>(1::rat) / 2\<rfloor> = 0"
    by (simp add: floor_eq_iff)
  then show ?thesis
    by (simp add: isInteger_def)
qed

lemma on_message_vote:
  assumes "m_roomId (meta st ws) = Some k" and "rooms st k = Some r"
    and "getProp msg ''type'' = Some (JStr ''VOTE'')"
    and "getProp msg ''payload'' = Some payload" and "truthy (Some payload)"
  shows "on_message js st ws (Some msg) = handleVote js st ws k r payload"
  using assms by (simp add: on_message_joined)

lemma ballotKey_not_string: "\<not> isString name \<Longrightarrow> ballotKey js k q name = Inl TypeError"
proof -
  have e: "e = TypeError" for e :: exn
    by (cases e) simp
  assume "\<not> isString name"
  then show ?thesis
    by (cases name) (auto simp: ballotKey_def e split: sum.splits)
qed

lemma handleVote_not_string:
  assumes "question r = Some q"
    and "strictEq (getProp payload ''questionId'') (q_id q)"
    and "getProp payload ''optionIndex'' = Some (JNum n)"
    and "\<not> numLess0 n" and "\<not> numGeLength n (length (counts r))"
    and "getProp payload ''name'' = Some name" and "truthy (Some name)"
    and "\<not> isString name"
  shows "handleVote js st ws k r payload = Inl TypeError"
  using assms by (simp add: handleVote_def ballotKey_not_string Let_def)

lemma handleVote_fraction:
  assumes "question r = Some q" and "rooms st k = Some r"
    and "strictEq (getProp payload ''questionId'') (q_id q)"
    and "getProp payload ''optionIndex'' = Some (JNum (Num x))"
    and "0 \<le> x" and "x < of_nat (length (counts r))" and "\<not> isInteger x"
    and "getProp payload ''name'' = Some name" and "truthy (Some name)"
    and "ballotKey js k q name = Inr key" and "key \<notin> votedBy r"
  shows "handleVote js st ws k r payload =
     Inr (st\<lparr>rooms := (rooms st)(k \<mapsto>
            r\<lparr>votedBy := insert key (votedBy r),
              counts_props := insert (Num x) (counts_props r),
              total_votes := total_votes r + 1\<rparr>)\<rparr>,
          concat (map (\<lambda>c. safeSend st c
             (STATE (keyValue k) (Some q) (counts r) (total_votes r + 1))) (clients r)))"
proof -
  have "\<not> numLess0 (Num x)" and "\<not> numGeLength (Num x) (length (counts r))"
    using assms(5,6) by simp_all
  from handleVote_ok [OF assms(1-4) this assms(8-11), of ws] show ?thesis
    using assms(7) by simp
qed

text \<open>
  Claim C5 says that the listener never throws. It does: a vote that passes the checks
  of lines 109 to 113 and whose name is a JSON value other than a string (a number,
  \<^verbatim>\<open>true\<close>, an array, an object) reaches \<^verbatim>\<open>name.trim()\<close> on line 115, a call of
  \<^verbatim>\<open>undefined\<close>. The exception leaves the listener, and nothing in the file catches
  it.
\<close>

theorem vote_name_not_string_throws:
  assumes "m_roomId (meta st ws) = Some k" and "rooms st k = Some r"
    and "question r = Some q"
    and "getProp msg ''type'' = Some (JStr ''VOTE'')"
    and "getProp msg ''payload'' = Some payload"
    and "strictEq (getProp payload ''questionId'') (q_id q)"
    and "getProp payload ''optionIndex'' = Some (JNum n)"
    and "\<not> numLess0 n" and "\<not> numGeLength n (length (counts r))"
    and "getProp payload ''name'' = Some name" and "truthy (Some name)"
    and "\<not> isString name"
  shows "on_message js st ws (Some msg) = Inl TypeError"
proof -
  have "truthy (Some payload)"
    using assms(7) by (rule getProp_truthy)
  then have "on_message js st ws (Some msg) = handleVote js st ws k r payload"
    using assms(1,2,4,5) by (simp add: on_message_vote)
  then show ?thesis
    using handleVote_not_string [OF assms(3) assms(6-12)] by simp
qed

theorem vote_name_not_string_throws_witness:
  "on_message ascii pollState 2 (Some (voteMsg (JStr ''q1'') (JNum (Num 0)) (JNum (Num 5)))) =
   Inl TypeError"
  using vote_name_not_string_throws [of pollState 2 "Prim (JStr ''R1'')" pollRoom pollQuestion
      "voteMsg (JStr ''q1'') (JNum (Num 0)) (JNum (Num 5))"
      "JObj [(''questionId'', JStr ''q1''), (''optionIndex'', JNum (Num 0)),
         (''name'', JNum (Num 5))]"
      "Num 0" "JNum (Num 5)" ascii]
  by (simp add: pollState_def pollRoom_def pollQuestion_def voteMsg_def)

text \<open>
  Claim C3 says that a vote fails when its option index is not an integer from 0 up
  to, and without, the number of counts. Lines 111 and 112 check that the index is a
  number, that it is at least 0 and that it is below the number of counts; they do not
  check that it is an integer. A vote with an index such as \<open>1 / 2\<close> is answered by no
  error: the ballot key is recorded, the total grows and the snapshot is broadcast, while
  no element of the counts changes.
\<close>

theorem vote_fraction_accepted:
  assumes "m_roomId (meta st ws) = Some k" and "rooms st k = Some r"
    and "question r = Some q"
    and "getProp msg ''type'' = Some (JStr ''VOTE'')"
    and "getProp msg ''payload'' = Some payload"
    and "strictEq (getProp payload ''questionId'') (q_id q)"
    and "getProp payload ''optionIndex'' = Some (JNum (Num x))"
    and "0 \<le> x" and "x < of_nat (length (counts r))" and "\<not> isInteger x"
    and "getProp payload ''name'' = Some name" and "truthy (Some name)"
    and "ballotKey js k q name = Inr key" and "key \<notin> votedBy r"
  shows "on_message js st ws (Some msg) =
     Inr (st\<lparr>rooms := (rooms st)(k \<mapsto>
            r\<lparr>votedBy := insert key (votedBy r),
              counts_props := insert (Num x) (counts_props r),
              total_votes := total_votes r + 1\<rparr>)\<rparr>,
          concat (map (\<lambda>c. safeSend st c
             (STATE (keyValue k) (Some q) (counts r) (total_votes r + 1))) (clients r)))"
proof -
  have "truthy (Some payload)"
    using assms(7) by (rule getProp_truthy)
  then have "on_message js st ws (Some msg) = handleVote js st ws k r payload"
    using assms(1,2,4,5) by (simp add: on_message_vote)
  then show ?thesis
    using handleVote_fraction [OF assms(3) assms(2) assms(6-14)] by simp
qed

theorem vote_fraction_accepted_witness:
  "on_message ascii pollState 2
     (Some (voteMsg (JStr ''q1'') (JNum (Num (1 / 2))) (JStr ''Bea''))) =
   Inr (pollState\<lparr>rooms := [Prim (JStr ''R1'') \<mapsto>
          pollRoom\<lparr>votedBy := {''R1:q1:bea'', ''R1:q1:ana''},
            counts_props := {Num (1 / 2)}, total_votes := 2\<rparr>]\<rparr>,
        [(1, STATE (JStr ''R1'') (Some pollQuestion) [0, 1] 2),
         (2, STATE (JStr ''R1'') (Some pollQuestion) [0, 1] 2)])"
  using vote_fraction_accepted [of pollState 2 "Prim (JStr ''R1'')" pollRoom pollQuestion
      "voteMsg (JStr ''q1'') (JNum (Num (1 / 2))) (JStr ''Bea'')"
      "JObj [(''questionId'', JStr ''q1''), (''optionIndex'', JNum (Num (1 / 2))),
         (''name'', JStr ''Bea'')]"
      "1 / 2" "JStr ''Bea''" ascii "''R1:q1:bea''"] not_isInteger_half
  by (simp add: pollState_def pollRoom_def pollQuestion_def voteMsg_def safeSend_def
      ballotKey_def ascii_def asciiTrim_def asciiLower_def asciiSpace_def)

text \<open>
  Claim C1 says that the total is the sum of the counts at all times. The vote of claim
  C3 breaks the equation: in a room where the two agree, the total is one more than the
  sum after it.
\<close>

theorem vote_fraction_breaks_total:
  assumes "m_roomId (meta st ws) = Some k" and "rooms st k = Some r"
    and "question r = Some q"
    and "getProp msg ''type'' = Some (JStr ''VOTE'')"
    and "getProp msg ''payload'' = Some payload"
    and "strictEq (getProp payload ''questionId'') (q_id q)"
    and "getProp payload ''optionIndex'' = Some (JNum (Num x))"
    and "0 \<le> x" and "x < of_nat (length (counts r))" and "\<not> isInteger x"
    and "getProp payload ''name'' = Some name" and "truthy (Some name)"
    and "ballotKey js k q name = Inr key" and "key \<notin> votedBy r"
    and "total_votes r = sum_list (counts r)"
  shows "case on_message js st ws (Some msg) of
       Inl e \<Rightarrow> False
     | Inr (st', out) \<Rightarrow>
         (case rooms st' k of
            None \<Rightarrow> False
          | Some r' \<Rightarrow> counts r' = counts r \<and> total_votes r' = sum_list (counts r') + 1)"
proof -
  have "truthy (Some payload)"
    using assms(7) by (rule getProp_truthy)
  then have "on_message js st ws (Some msg) = handleVote js st ws k r payload"
    using assms(1,2,4,5) by (simp add: on_message_vote)
  then show ?thesis
    using handleVote_fraction [OF assms(3) assms(2) assms(6-14), of ws] assms(15) by simp
qed

theorem vote_fraction_breaks_total_witness:
  "case on_message ascii pollState 2
       (Some (voteMsg (JStr ''q1'') (JNum (Num (1 / 2))) (JStr ''Bea''))) of
     Inl e \<Rightarrow> False
   | Inr (st', out) \<Rightarrow>
       (case rooms st' (Prim (JStr ''R1'')) of
          None \<Rightarrow> False
        | Some r' \<Rightarrow> counts r' = [0, 1] \<and> total_votes r' = 2)"
proof -
  have "case on_message ascii pollState 2
       (Some (voteMsg (JStr ''q1'') (JNum (Num (1 / 2))) (JStr ''Bea''))) of
     Inl e \<Rightarrow> False
   | Inr (st', out) \<Rightarrow>
       (case rooms st' (Prim (JStr ''R1'')) of
          None \<Rightarrow> False
        | Some r' \<Rightarrow> counts r' = counts pollRoom \<and>
            total_votes r' = sum_list (counts r') + 1)"
    using not_isInteger_half
    by (intro vote_fraction_breaks_total [of pollState 2 "Prim (JStr ''R1'')" pollRoom
          pollQuestion _
          "JObj [(''questionId'', JStr ''q1''), (''optionIndex'', JNum (Num (1 / 2))),
             (''name'', JStr ''Bea'')]"
          "1 / 2" "JStr ''Bea''" ascii "''R1:q1:bea''"])
       (simp_all add: pollState_def pollRoom_def pollQuestion_def voteMsg_def
          ballotKey_def ascii_def asciiTrim_def asciiLower_def asciiSpace_def)
  then show ?thesis
    by (auto simp: pollRoom_def split: sum.splits option.splits)
qed

section \<open>The room of a joined session exists\<close>

lemma on_message_sessions_have_rooms:
  assumes "\<And>c. sessionHasRoom st c" and "on_message js st ws parsed = Inr (st', out)"
  shows "sessionHasRoom st' c"
proof -
  consider (same) "st' = st"
    | (room) k r' where "st' = st\<lparr>rooms := (rooms st)(k \<mapsto> r')\<rparr>"
    | (join) a name role where "st' = joinedState st ws a name role"
    using on_message_frame [OF assms(2)] by blast
  then show ?thesis
  proof cases
    case same
    then show ?thesis using assms(1) by simp
  next
    case room
    then show ?thesis
      using assms(1) [of c] by (auto simp: sessionHasRoom_def split: option.splits)
  next
    case join
    then show ?thesis
      using assms(1) [of c]
      by (auto simp: sessionHasRoom_def joinedState_def split: option.splits)
  qed
qed

lemma on_close_sessions_have_rooms:
  assumes "\<And>c. sessionHasRoom st c"
  shows "sessionHasRoom (on_close (st\<lparr>readyState := f\<rparr>) ws) c"
  using assms [of c] assms [of ws]
  by (auto simp: sessionHasRoom_def on_close_def getRoom_def split: option.splits)

lemma step_sessions_have_rooms:
  assumes "\<And>c. sessionHasRoom st c" and "step js st e = Inr (st', out)"
  shows "sessionHasRoom st' c"
proof (cases e)
  case (Connection ws)
  then show ?thesis
    using assms(2) assms(1) [of c]
    by (auto simp: sessionHasRoom_def on_connection_def split: option.splits if_splits)
next
  case (Message ws parsed)
  then show ?thesis
    using assms on_message_sessions_have_rooms [of st js ws parsed st' out c] by simp
next
  case (Close ws)
  then show ?thesis
    using assms on_close_sessions_have_rooms [of st _ ws c] by auto
qed

lemma run_keeps_sessions_have_rooms:
  "run js st es = Inr (st', out) \<Longrightarrow> (\<And>c. sessionHasRoom st c) \<Longrightarrow> sessionHasRoom st' ws"
proof (induction es arbitrary: st out)
  case Nil
  then show ?case by simp
next
  case (Cons e es)
  from run_Cons_Inr [OF Cons.prems(1)] obtain st1 out1 out2 where
    s: "step js st e = Inr (st1, out1)" "run js st1 es = Inr (st', out2)"
    by blast
  have "sessionHasRoom st1 c" for c
    using step_sessions_have_rooms [OF Cons.prems(2) s(1)] .
  then show ?case
    using Cons.IH [OF s(2)] by simp
qed

lemma run_sessions_have_rooms:
  "run js initial es = Inr (st, out) \<Longrightarrow> sessionHasRoom st ws"
  by (erule run_keeps_sessions_have_rooms) (simp add: sessionHasRoom_def initial_def)


section \<open>What holds beside the defects\<close>

text \<open>
  The failures of a vote that the checks do find, in the order of lines 109 to 113: each
  is answered by its error to the sender and leaves the state as it is.
\<close>

lemma vote_checks_in_order:
  "question r = None \<Longrightarrow>
     handleVote js st ws k r payload = Inr (st, safeSend st ws (ERROR NoActiveQuestion))"
  "question r = Some q \<Longrightarrow> \<not> strictEq (getProp payload ''questionId'') (q_id q) \<Longrightarrow>
     handleVote js st ws k r payload = Inr (st, safeSend st ws (ERROR QuestionIdMismatch))"
  "question r = Some q \<Longrightarrow> strictEq (getProp payload ''questionId'') (q_id q) \<Longrightarrow>
     \<forall>n. getProp payload ''optionIndex'' \<noteq> Some (JNum n) \<Longrightarrow>
     handleVote js st ws k r payload = Inr (st, safeSend st ws (ERROR OptionIndexInvalid))"
  "question r = Some q \<Longrightarrow> strictEq (getProp payload ''questionId'') (q_id q) \<Longrightarrow>
     getProp payload ''optionIndex'' = Some (JNum n) \<Longrightarrow>
     numLess0 n \<or> numGeLength n (length (counts r)) \<Longrightarrow>
     handleVote js st ws k r payload = Inr (st, safeSend st ws (ERROR OptionOutOfRange))"
  "question r = Some q \<Longrightarrow> strictEq (getProp payload ''questionId'') (q_id q) \<Longrightarrow>
     getProp payload ''optionIndex'' = Some (JNum n) \<Longrightarrow>
     \<not> numLess0 n \<Longrightarrow> \<not> numGeLength n (length (counts r)) \<Longrightarrow>
     \<not> truthy (getProp payload ''name'') \<Longrightarrow>
     handleVote js st ws k r payload = Inr (st, safeSend st ws (ERROR NameRequired))"
  by (auto simp: handleVote_def sendError_def Let_def split: option.splits json.splits)

text \<open>
  With integers as option indices the total is the sum of the counts in every room of
  every state the server reaches.
\<close>

lemma sum_list_increment:
  "i < length xs \<Longrightarrow> sum_list (xs[i := xs ! i + 1]) = sum_list xs + (1::int)"
  by (induction xs arbitrary: i) (auto split: nat.splits)

lemma countedVote_integer_total:
  assumes "isInteger x" and "\<not> numLess0 (Num x)" and "\<not> numGeLength (Num x) (length (counts r))"
    and "total_votes r = sum_list (counts r)"
  shows "total_votes (countedVote (Num x) key r) = sum_list (counts (countedVote (Num x) key r))"
proof -
  have "0 \<le> x" and "x < of_nat (length (counts r))"
    using assms(2,3) by simp_all
  then have "of_int \<lfloor>x\<rfloor> < (of_nat (length (counts r)) :: rat)" and "0 \<le> \<lfloor>x\<rfloor>"
    using assms(1) by (simp_all add: isInteger_def)
  then have "nat \<lfloor>x\<rfloor> < length (counts r)"
    by (metis nat_less_iff of_int_less_iff of_int_of_nat_eq)
  then show ?thesis
    using assms(1,4) \<open>0 \<le> x\<close> by (simp add: countedVote_def sum_list_increment)
qed

lemma on_message_keeps_total:
  assumes "on_message js st ws parsed = Inr (st', out)"
    and "integerIndex (Message ws parsed)"
    and "\<And>k. total_votes (roomOrEmpty st k) = sum_list (counts (roomOrEmpty st k))"
  shows "total_votes (roomOrEmpty st' k) = sum_list (counts (roomOrEmpty st' k))"
proof -
  from on_message_result [OF assms(1)] consider (same) "st' = st"
    | (made) k' where "st' = st\<lparr>rooms := (rooms st)(k' \<mapsto> roomOrEmpty st k')\<rparr>"
    | (reset) k' q where "st' = st\<lparr>rooms := (rooms st)(k' \<mapsto> newQuestion q (roomOrEmpty st k'))\<rparr>"
    | (vote) k' n key where "optionIndexOf parsed = Some (JNum n)" "\<not> numLess0 n"
        "\<not> numGeLength n (length (counts (roomOrEmpty st k')))"
        "st' = st\<lparr>rooms := (rooms st)(k' \<mapsto> countedVote n key (roomOrEmpty st k'))\<rparr>"
    | (join) a name role where "st' = joinedState st ws a name role"
    by blast
  then show ?thesis
  proof cases
    case same
    then show ?thesis using assms(3) by simp
  next
    case made
    then show ?thesis using assms(3) by (simp add: roomOrEmpty_update)
  next
    case reset
    then show ?thesis
      using assms(3) by (simp add: roomOrEmpty_update newQuestion_def sum_list_replicate)
  next
    case vote
    from vote(1-3) assms(2) obtain x where x: "n = Num x" "isInteger x"
      by (cases n) auto
    show ?thesis
      using vote(2-4) x assms(3) [of k] assms(3) [of k']
        countedVote_integer_total [of x "roomOrEmpty st k'" key]
      by (simp add: roomOrEmpty_update)
  next
    case join
    then show ?thesis using assms(3) by (simp add: roomOrEmpty_joinedState)
  qed
qed

lemma step_keeps_total:
  assumes "step js st e = Inr (st', out)" and "integerIndex e"
    and "\<And>k. total_votes (roomOrEmpty st k) = sum_list (counts (roomOrEmpty st k))"
  shows "total_votes (roomOrEmpty st' k) = sum_list (counts (roomOrEmpty st' k))"
proof (cases e)
  case (Connection ws)
  then show ?thesis
    using assms(1) assms(3) [of k] by (auto simp: on_connection_def)
next
  case (Message ws parsed)
  then show ?thesis
    using assms on_message_keeps_total [of js st ws parsed st' out k] by simp
next
  case (Close ws)
  then have "st' = on_close (st\<lparr>readyState := (readyState st)(ws := CLOSED)\<rparr>) ws"
    using assms(1) by auto
  then have "total_votes (roomOrEmpty st' k) = total_votes (roomOrEmpty st k)"
    and "counts (roomOrEmpty st' k) = counts (roomOrEmpty st k)"
    by (simp_all add: roomOrEmpty_on_close)
  then show ?thesis
    using assms(3) [of k] by simp
qed

lemma run_keeps_total:
  "run js st es = Inr (st', out) \<Longrightarrow> list_all integerIndex es \<Longrightarrow>
   (\<And>k. total_votes (roomOrEmpty st k) = sum_list (counts (roomOrEmpty st k))) \<Longrightarrow>
   total_votes (roomOrEmpty st' k) = sum_list (counts (roomOrEmpty st' k))"
proof (induction es arbitrary: st out)
  case Nil
  then show ?case by simp
next
  case (Cons e es)
  from run_Cons_Inr [OF Cons.prems(1)] obtain st1 out1 out2 where
    s: "step js st e = Inr (st1, out1)" "run js st1 es = Inr (st', out2)"
    by blast
  have "total_votes (roomOrEmpty st1 k') = sum_list (counts (roomOrEmpty st1 k'))" for k'
    using step_keeps_total [OF s(1) _ Cons.prems(3)] Cons.prems(2) by simp
  then show ?case
    using Cons.IH [OF s(2)] Cons.prems(2) by simp
qed

lemma integer_votes_keep_total:
  assumes "run js initial es = Inr (st, out)" and "list_all integerIndex es"
    and "rooms st k = Some r"
  shows "total_votes r = sum_list (counts r)"
proof -
  have "total_votes (roomOrEmpty initial k') = sum_list (counts (roomOrEmpty initial k'))" for k'
    by (simp add: roomOrEmpty_def initial_def emptyRoom_def)
  from run_keeps_total [OF assms(1,2) this, of k] show ?thesis
    using assms(3) by simp
qed

text \<open>
  A message of a session whose role is not \<^verbatim>\<open>host\<close> changes the question
  of no room.
\<close>

lemma question_changes_only_by_host:
  assumes "on_message js st ws parsed = Inr (st', out)" and "m_role (meta st ws) \<noteq> JStr ''host''"
  shows "question (roomOrEmpty st' k) = question (roomOrEmpty st k)"
proof -
  from on_message_result [OF assms(1)] assms(2) consider (same) "st' = st"
    | (made) k' where "st' = st\<lparr>rooms := (rooms st)(k' \<mapsto> roomOrEmpty st k')\<rparr>"
    | (vote) k' n key where
        "st' = st\<lparr>rooms := (rooms st)(k' \<mapsto> countedVote n key (roomOrEmpty st k'))\<rparr>"
    | (join) a name role where "st' = joinedState st ws a name role"
    by blast
  then show ?thesis
    by cases (simp_all add: roomOrEmpty_update roomOrEmpty_joinedState countedVote_def)
qed

text \<open>
  The ballots of a room grow until a new question empties them, and a vote under a name
  whose key is among them is answered by an error, whatever else the payload holds: a key
  is counted once for a question.
\<close>

lemma votedBy_grows_or_resets:
  assumes "step js st e = Inr (st', out)"
  shows "votedBy (roomOrEmpty st k) \<subseteq> votedBy (roomOrEmpty st' k) \<or>
     votedBy (roomOrEmpty st' k) = {} \<and> total_votes (roomOrEmpty st' k) = 0"
proof (cases e)
  case (Connection ws)
  then show ?thesis
    using assms by (auto simp: on_connection_def)
next
  case (Message ws parsed)
  then have "on_message js st ws parsed = Inr (st', out)"
    using assms by simp
  from on_message_result [OF this] consider (same) "st' = st"
    | (made) k' where "st' = st\<lparr>rooms := (rooms st)(k' \<mapsto> roomOrEmpty st k')\<rparr>"
    | (reset) k' q where "st' = st\<lparr>rooms := (rooms st)(k' \<mapsto> newQuestion q (roomOrEmpty st k'))\<rparr>"
    | (vote) k' n key where
        "st' = st\<lparr>rooms := (rooms st)(k' \<mapsto> countedVote n key (roomOrEmpty st k'))\<rparr>"
    | (join) a name role where "st' = joinedState st ws a name role"
    by blast
  then show ?thesis
    by cases
      (auto simp: roomOrEmpty_update roomOrEmpty_joinedState countedVote_def newQuestion_def)
next
  case (Close ws)
  then have "st' = on_close (st\<lparr>readyState := (readyState st)(ws := CLOSED)\<rparr>) ws"
    using assms by auto
  then have "votedBy (roomOrEmpty st' k) = votedBy (roomOrEmpty st k)"
    by (simp add: roomOrEmpty_on_close)
  then show ?thesis by simp
qed

lemma voted_name_is_not_counted:
  assumes "m_roomId (meta st ws) = Some k" and "rooms st k = Some r"
    and "question r = Some q"
    and "getProp msg ''type'' = Some (JStr ''VOTE'')"
    and "getProp msg ''payload'' = Some payload"
    and "getProp payload ''name'' = Some name"
    and "ballotKey js k q name = Inr key" and "key \<in> votedBy r"
  shows "\<exists>e. on_message js st ws (Some msg) = Inr (st, safeSend st ws (ERROR e))"
proof -
  have "truthy (Some payload)"
    using assms(6) by (rule getProp_truthy)
  then have "on_message js st ws (Some msg) = handleVote js st ws k r payload"
    using assms(1,2,4,5) by (simp add: on_message_vote)
  moreover have "\<exists>e. handleVote js st ws k r payload = sendError st ws e"
    using assms(3,6,7,8)
    by (auto simp: handleVote_def Let_def split: option.splits json.splits)
  ultimately show ?thesis
    by (auto simp: sendError_def)
qed

text \<open>
  In every room of every state the server reaches, the total is the number of ballot
  keys in \<^verbatim>\<open>votedBy\<close>: every vote that is counted brings a key that was not there.
\<close>

lemma on_message_counts_ballots:
  assumes "on_message js st ws parsed = Inr (st', out)"
    and "\<And>k. finite (votedBy (roomOrEmpty st k)) \<and>
           total_votes (roomOrEmpty st k) = int (card (votedBy (roomOrEmpty st k)))"
  shows "finite (votedBy (roomOrEmpty st' k)) \<and>
     total_votes (roomOrEmpty st' k) = int (card (votedBy (roomOrEmpty st' k)))"
proof -
  from on_message_result [OF assms(1)] consider (same) "st' = st"
    | (made) k' where "st' = st\<lparr>rooms := (rooms st)(k' \<mapsto> roomOrEmpty st k')\<rparr>"
    | (reset) k' q where "st' = st\<lparr>rooms := (rooms st)(k' \<mapsto> newQuestion q (roomOrEmpty st k'))\<rparr>"
    | (vote) k' n key where "key \<notin> votedBy (roomOrEmpty st k')"
        "st' = st\<lparr>rooms := (rooms st)(k' \<mapsto> countedVote n key (roomOrEmpty st k'))\<rparr>"
    | (join) a name role where "st' = joinedState st ws a name role"
    by blast
  then show ?thesis
  proof cases
    case same
    then show ?thesis using assms(2) by simp
  next
    case made
    then show ?thesis using assms(2) by (simp add: roomOrEmpty_update)
  next
    case reset
    then show ?thesis using assms(2) by (simp add: roomOrEmpty_update newQuestion_def)
  next
    case vote
    then show ?thesis
      using assms(2) [of k] assms(2) [of k'] by (simp add: roomOrEmpty_update countedVote_def)
  next
    case join
    then show ?thesis using assms(2) by (simp add: roomOrEmpty_joinedState)
  qed
qed

lemma step_counts_ballots:
  assumes "step js st e = Inr (st', out)"
    and "\<And>k. finite (votedBy (roomOrEmpty st k)) \<and>
           total_votes (roomOrEmpty st k) = int (card (votedBy (roomOrEmpty st k)))"
  shows "finite (votedBy (roomOrEmpty st' k)) \<and>
     total_votes (roomOrEmpty st' k) = int (card (votedBy (roomOrEmpty st' k)))"
proof (cases e)
  case (Connection ws)
  then show ?thesis
    using assms(1) assms(2) [of k] by (auto simp: on_connection_def)
next
  case (Message ws parsed)
  then show ?thesis
    using assms on_message_counts_ballots [of js st ws parsed st' out k] by simp
next
  case (Close ws)
  then have "st' = on_close (st\<lparr>readyState := (readyState st)(ws := CLOSED)\<rparr>) ws"
    using assms(1) by auto
  then have "total_votes (roomOrEmpty st' k) = total_votes (roomOrEmpty st k)"
    and "votedBy (roomOrEmpty st' k) = votedBy (roomOrEmpty st k)"
    by (simp_all add: roomOrEmpty_on_close)
  then show ?thesis
    using assms(2) [of k] by simp
qed

lemma run_counts_ballots:
  "run js st es = Inr (st', out) \<Longrightarrow>
   (\<And>k. finite (votedBy (roomOrEmpty st k)) \<and>
      total_votes (roomOrEmpty st k) = int (card (votedBy (roomOrEmpty st k)))) \<Longrightarrow>
   finite (votedBy (roomOrEmpty st' k)) \<and>
     total_votes (roomOrEmpty st' k) = int (card (votedBy (roomOrEmpty st' k)))"
proof (induction es arbitrary: st out)
  case Nil
  then show ?case by simp
next
  case (Cons e es)
  from run_Cons_Inr [OF Cons.prems(1)] obtain st1 out1 out2 where
    s: "step js st e = Inr (st1, out1)" "run js st1 es = Inr (st', out2)"
    by blast
  have "finite (votedBy (roomOrEmpty st1 k')) \<and>
      total_votes (roomOrEmpty st1 k') = int (card (votedBy (roomOrEmpty st1 k')))" for k'
    using step_counts_ballots [OF s(1) Cons.prems(2)] by simp
  then show ?case
    using Cons.IH [OF s(2)] by simp
qed

lemma total_is_number_of_ballots:
  assumes "run js initial es = Inr (st, out)" and "rooms st k = Some r"
  shows "finite (votedBy r) \<and> total_votes r = int (card (votedBy r))"
proof -
  have "finite (votedBy (roomOrEmpty initial k')) \<and>
      total_votes (roomOrEmpty initial k') = int (card (votedBy (roomOrEmpty initial k')))" for k'
    by (simp add: roomOrEmpty_def initial_def emptyRoom_def)
  from run_counts_ballots [OF assms(1) this, of k] show ?thesis
    using assms(2) by simp
qed

text \<open>
  The listener throws nowhere but in the ballot key of a vote that passed the checks:
  for a name that is not a string, or for a \<^verbatim>\<open>roomId\<close> that has no string.
\<close>

lemma toString_primitive: "\<not> isObject v \<Longrightarrow> \<exists>s. toString js v = Inr s"
  by (cases v) simp_all

lemma ballotKey_throws:
  assumes "ballotKey js k q name = Inl e" and "\<not> isObject (q_id q)"
  shows "\<not> isString name \<or> toString js (keyValue k) = Inl e"
proof -
  from toString_primitive [OF assms(2), of js] obtain s where "toString js (q_id q) = Inr s"
    by blast
  then show ?thesis
    using assms(1) by (cases name) (auto simp: ballotKey_def split: sum.splits)
qed

lemma handleVote_throws:
  assumes "handleVote js st ws k r payload = Inl e"
  shows "\<exists>q name. question r = Some q \<and> getProp payload ''name'' = Some name \<and>
     truthy (Some name) \<and> (\<not> isString name \<or> toString js (keyValue k) = Inl e)"
proof -
  from assms obtain q where g: "question r = Some q"
    "strictEq (getProp payload ''questionId'') (q_id q)"
    "truthy (getProp payload ''name'')"
    "ballotKey js k q (the (getProp payload ''name'')) = Inl e"
    by (auto simp: handleVote_def sendError_def roomState_def broadcast_def getRoom_def Let_def
        split: option.splits json.splits sum.splits if_splits)
  from g(3) obtain name where n: "getProp payload ''name'' = Some name"
    using truthy_SomeE by blast
  have f: "question r = Some q" "strictEq (getProp payload ''questionId'') (q_id q)"
    "getProp payload ''name'' = Some name" "truthy (Some name)"
    "ballotKey js k q name = Inl e"
    using g n by simp_all
  from f(2) have "\<not> isObject (q_id q)"
    by (cases "getProp payload ''questionId''") auto
  from ballotKey_throws [OF f(5) this] f(1,3,4) show ?thesis
    by blast
qed

lemma on_message_throws_only_at_ballotKey:
  assumes "on_message js st ws parsed = Inl e"
  shows "\<exists>msg payload k q name. parsed = Some msg \<and>
     getProp msg ''type'' = Some (JStr ''VOTE'') \<and> getProp msg ''payload'' = Some payload \<and>
     m_roomId (meta st ws) = Some k \<and> question (roomOrEmpty st k) = Some q \<and>
     getProp payload ''name'' = Some name \<and> truthy (Some name) \<and>
     (\<not> isString name \<or> toString js (keyValue k) = Inl e)"
proof (cases parsed)
  case None
  then show ?thesis
    using assms by (simp add: on_message_def sendError_def)
next
  case (Some msg)
  have ty: "truthy (getProp msg ''type'')" and tp: "truthy (getProp msg ''payload'')"
    using assms Some
    by (auto simp: on_message_def getProp_or_empty sendError_def Let_def split: if_splits)
  from tp obtain payload where p: "getProp msg ''payload'' = Some payload"
    using truthy_SomeE by blast
  have notJoin: "getProp msg ''type'' \<noteq> Some (JStr ''JOIN'')"
  proof
    assume j: "getProp msg ''type'' = Some (JStr ''JOIN'')"
    have "on_message js st ws (Some msg) = handleJoin st ws payload"
      using j p tp by (simp add: on_message_join)
    then show False
      using assms Some
      by (auto simp: handleJoin_def sendError_def roomState_def getRoom_def Let_def
          split: if_splits option.splits prod.splits)
  qed
  obtain k where k: "m_roomId (meta st ws) = Some k"
    using assms Some ty tp notJoin
    by (cases "m_roomId (meta st ws)") (auto simp: on_message_def getProp_or_empty sendError_def)
  let ?r = "roomOrEmpty st k"
  define st1 where "st1 = snd (getRoom k st)"
  have g: "getRoom k st = (?r, st1)"
    by (cases "rooms st k") (simp_all add: st1_def getRoom_def)
  have om: "on_message js st ws (Some msg) =
      (if getProp msg ''type'' = Some (JStr ''HOST_SET_QUESTION'')
         then handleSetQuestion st1 ws k ?r payload
       else if getProp msg ''type'' = Some (JStr ''VOTE'')
         then handleVote js st1 ws k ?r payload
       else sendError st1 ws UnsupportedType)"
    using ty tp p notJoin k g by (simp add: on_message_def getProp_or_empty)
  have noSet: "handleSetQuestion st1 ws k ?r payload \<noteq> Inl e"
    by (auto simp: handleSetQuestion_def sendError_def roomState_def broadcast_def getRoom_def
        Let_def split: option.splits json.splits if_splits prod.splits)
  have v: "getProp msg ''type'' = Some (JStr ''VOTE'')"
    "handleVote js st1 ws k ?r payload = Inl e"
    using assms Some om noSet by (auto simp: sendError_def split: if_splits)
  from handleVote_throws [OF v(2)] show ?thesis
    using Some v(1) p k by blast
qed


end
